theory Spec2Isabelle
  imports Complex_Main "HOL-Library.Multiset" "HOL-Library.Log_Nat"
begin

section \<open>Data model of \<open>layout_blt/trainer.py\<close>\<close>

text \<open>
  Tokens are Python integers. A batch is a 2-D tensor, given as the list of its rows;
  the rows of a tensor share one width (\<open>is_tensor\<close>). A finite floating-point
  value is the rational number it denotes. Scores are only compared, and rates are
  computed by Python in double precision, whose rounding is not modelled. The one
  single-precision computation that is turned into an integer, the target count
  \<open>torch.ceil(lens * mask_rate)\<close>, is modelled with its rounding (\<open>round32\<close>). Where
  the code tests for NaN or compares losses, the infinities and NaN are values of their
  own (\<open>fval\<close>). Every exception the code can raise is a value of \<open>error\<close>.
\<close>

type_synonym token = int

datatype error =
  IndexError | ValueError | RuntimeError | UnboundLocalError | EOFError | TypeError
  | ZeroDivisionError

definition is_tensor :: "'a list list \<Rightarrow> bool" where
  "is_tensor rows = list_all (\<lambda>r. length r = length (hd rows)) rows"

section \<open>The global random generator\<close>

text \<open>
  The state of torch's default generator is the seed it was last seeded with and the
  number of values drawn since. \<open>torch.initial_seed()\<close> reads the seed,
  \<open>torch.manual_seed(s)\<close> re-seeds and so restarts the stream of \<open>s\<close> at its
  beginning, and \<open>torch.rand(shape)\<close> draws one value per element in row-major order.
  The stream itself (value number \<open>k\<close> of seed \<open>s\<close>) is a parameter \<open>gen\<close> of the model.
\<close>

record rng =
  seed :: int
  drawn :: nat

type_synonym stream = "int \<Rightarrow> nat \<Rightarrow> rat"

definition initial_seed :: "rng \<Rightarrow> int" where
  "initial_seed g = seed g"

definition manual_seed :: "int \<Rightarrow> rng" where
  "manual_seed s = \<lparr>seed = s, drawn = 0\<rparr>"

fun rand_rows :: "stream \<Rightarrow> int \<Rightarrow> nat \<Rightarrow> 'a list list \<Rightarrow> rat list list" where
  "rand_rows gen s k [] = []"
| "rand_rows gen s k (r # rs) =
     map (\<lambda>j. gen s (k + j)) [0..<length r] # rand_rows gen s (k + length r) rs"

definition numel :: "'a list list \<Rightarrow> nat" where
  "numel rows = sum_list (map length rows)"

definition torch_rand :: "stream \<Rightarrow> rng \<Rightarrow> 'a list list \<Rightarrow> rat list list \<times> rng" where
  "torch_rand gen g inputs =
     (rand_rows gen (seed g) (drawn g) inputs, g\<lparr>drawn := drawn g + numel inputs\<rparr>)"

section \<open>Single-precision arithmetic\<close>

text \<open>
  \<open>lens\<close> is an int64 tensor and \<open>mask_rate\<close> a Python float, so torch computes
  \<open>lens * mask_rate\<close> in its default dtype float32: both operands are converted to
  float32 and the product is rounded to float32. \<open>round32 x\<close> is the float32 nearest to
  \<open>x\<close>, ties going to the even significand (\<open>rhe\<close>): \<open>ulp32 x\<close> is the distance between
  neighbouring float32 values at the magnitude of \<open>x\<close>, that is \<open>2 ^ (e - 23)\<close> for
  \<open>2 ^ e \<le> x < 2 ^ (e + 1)\<close>, and \<open>2 ^ - 149\<close> throughout the subnormal range. Overflow to
  infinity (magnitudes from \<open>2 ^ 128\<close> on) is not modelled.
\<close>

definition rhe :: "rat \<Rightarrow> int" where
  "rhe q = (let f = \<lfloor>q\<rfloor>; d = q - of_int f
            in if d < 1 / 2 then f else if 1 / 2 < d then f + 1 else if even f then f else f + 1)"

definition ulp32 :: "rat \<Rightarrow> rat" where
  "ulp32 x =
     (if 1 \<le> x
      then (let e = nat (bitlen \<lfloor>x\<rfloor> - 1) in if 23 \<le> e then 2 ^ (e - 23) else 1 / 2 ^ (23 - e))
      else 1 / 2 ^ (min 149 (nat (bitlen (\<lceil>1 / x\<rceil> - 1)) + 23)))"

definition round32 :: "rat \<Rightarrow> rat" where
  "round32 x =
     (if x = 0 then 0
      else if 0 < x then of_int (rhe (x / ulp32 x)) * ulp32 x
      else - (of_int (rhe (- x / ulp32 (- x))) * ulp32 (- x)))"

section \<open>Stochastic masking: \<open>BLT_masking\<close>\<close>

text \<open>
  One row of the batch, with the scores \<open>rs\<close> drawn for it. The steps are those of the
  source, in its order: \<open>should_mask\<close>, \<open>lens\<close>, \<open>mask_lens\<close> (the ceiling of the
  single-precision product), the overwrite of the scores
  of non-maskable positions by 2.0, the appended \<open>-1\<close>, the sort, the \<open>gather\<close> at index
  \<open>mask_lens\<close> (which raises when the index is outside the sorted row), the replacement of
  a cut-off of 2.0 by 1.0, and the final \<open>should_mask &= rand <= cut_off\<close>.
\<close>

definition maskable :: "token \<Rightarrow> token \<Rightarrow> token \<Rightarrow> bool" where
  "maskable eos_token pad_token x = (x \<noteq> pad_token \<and> x \<noteq> eos_token)"

definition gather :: "rat list \<Rightarrow> int \<Rightarrow> error + rat" where
  "gather sorted_rand i =
     (if 0 \<le> i \<and> i < int (length sorted_rand) then Inr (sorted_rand ! nat i)
      else Inl RuntimeError)"

definition lens :: "token \<Rightarrow> token \<Rightarrow> token list \<Rightarrow> nat" where
  "lens eos_token pad_token xs = length (filter id (map (maskable eos_token pad_token) xs))"

definition mask_lens :: "token \<Rightarrow> token \<Rightarrow> rat \<Rightarrow> token list \<Rightarrow> int" where
  "mask_lens eos_token pad_token mask_rate xs =
     \<lceil>round32 (round32 (of_nat (lens eos_token pad_token xs)) * round32 mask_rate)\<rceil>"

definition rand_scores :: "token \<Rightarrow> token \<Rightarrow> token list \<Rightarrow> rat list \<Rightarrow> rat list" where
  "rand_scores eos_token pad_token xs rs =
     map2 (\<lambda>b r. if b then r else 2) (map (maskable eos_token pad_token) xs) rs"

definition sorted_rand :: "token \<Rightarrow> token \<Rightarrow> token list \<Rightarrow> rat list \<Rightarrow> rat list" where
  "sorted_rand eos_token pad_token xs rs = sort (rand_scores eos_token pad_token xs rs @ [- 1])"

definition BLT_row ::
  "token \<Rightarrow> token \<Rightarrow> token \<Rightarrow> rat \<Rightarrow> token list \<Rightarrow> rat list \<Rightarrow> error + (token list \<times> bool list)"
where
  "BLT_row mask_token eos_token pad_token mask_rate xs rs =
     (case gather (sorted_rand eos_token pad_token xs rs)
             (mask_lens eos_token pad_token mask_rate xs) of
        Inl e \<Rightarrow> Inl e
      | Inr c \<Rightarrow>
          (let cut_off = (if c = 2 then 1 else c);
               should_mask = map2 (\<lambda>b r. b \<and> r \<le> cut_off)
                               (map (maskable eos_token pad_token) xs)
                               (rand_scores eos_token pad_token xs rs);
               masked_inputs = map2 (\<lambda>b x. if b then mask_token else x) should_mask xs
           in Inr (masked_inputs, should_mask)))"

fun collect :: "(error + 'a) list \<Rightarrow> error + 'a list" where
  "collect [] = Inr []"
| "collect (Inl e # rs) = Inl e"
| "collect (Inr x # rs) = (case collect rs of Inl e \<Rightarrow> Inl e | Inr xs \<Rightarrow> Inr (x # xs))"

definition BLT_rows ::
  "token \<Rightarrow> token \<Rightarrow> token \<Rightarrow> rat \<Rightarrow> token list list \<Rightarrow> rat list list
     \<Rightarrow> error + (token list list \<times> bool list list)"
where
  "BLT_rows mask_token eos_token pad_token mask_rate inputs rand =
     (case collect (map2 (BLT_row mask_token eos_token pad_token mask_rate) inputs rand) of
        Inl e \<Rightarrow> Inl e
      | Inr res \<Rightarrow> Inr (map fst res, map snd res))"

text \<open>
  The whole call, with the generator threaded through. With \<open>training = False\<close> the seed
  is read, seed 0 is forced, and after the masking the generator is seeded again with the
  seed that was read. An exception raised by \<open>gather\<close> leaves the function before that
  last line, so the generator then stays as the draw left it.
\<close>

definition BLT_masking ::
  "stream \<Rightarrow> token \<Rightarrow> token \<Rightarrow> token \<Rightarrow> rat \<Rightarrow> bool \<Rightarrow> rng \<Rightarrow> token list list
     \<Rightarrow> (error + (token list list \<times> bool list list)) \<times> rng"
where
  "BLT_masking gen mask_token eos_token pad_token mask_rate training g inputs =
     (let original_seed = initial_seed g;
          g1 = (if \<not> training then manual_seed 0 else g);
          (rand, g2) = torch_rand gen g1 inputs
      in case BLT_rows mask_token eos_token pad_token mask_rate inputs rand of
           Inl e \<Rightarrow> (Inl e, g2)
         | Inr res \<Rightarrow> (Inr res, if \<not> training then manual_seed original_seed else g2))"

definition drawn_scores :: "stream \<Rightarrow> bool \<Rightarrow> rng \<Rightarrow> 'a list list \<Rightarrow> rat list list" where
  "drawn_scores gen training g inputs =
     fst (torch_rand gen (if \<not> training then manual_seed 0 else g) inputs)"

section \<open>Deterministic masking: \<open>test_masking\<close>\<close>

text \<open>
  \<open>(seq == eos_token).nonzero(as_tuple=True)[0]\<close> is the tensor of all indices holding
  \<open>eos_token\<close>; \<open>.item()\<close> converts a tensor of exactly one element and raises on any
  other. \<open>max\<close> over an empty batch raises. The two branches on the parity of the row
  index are kept as the source has them.
\<close>

definition nonzero_eq :: "token \<Rightarrow> token list \<Rightarrow> nat list" where
  "nonzero_eq eos_token seq = filter (\<lambda>k. seq ! k = eos_token) [0..<length seq]"

fun item :: "nat list \<Rightarrow> error + nat" where
  "item [k] = Inr k"
| "item ks = Inl RuntimeError"

definition eos_index :: "token \<Rightarrow> token list \<Rightarrow> error + nat" where
  "eos_index eos_token seq =
     (if eos_token \<in> set seq then item (nonzero_eq eos_token seq) else Inr (length seq))"

definition mask_indices :: "nat \<Rightarrow> nat \<Rightarrow> nat list" where
  "mask_indices i seq_len =
     (if i mod 2 = 0 then filter (\<lambda>k. k mod 7 \<in> set [1, 2]) [0..<seq_len]
      else filter (\<lambda>k. k mod 7 \<in> set [1, 2]) [0..<seq_len])"

definition test_row ::
  "token \<Rightarrow> token \<Rightarrow> token \<Rightarrow> nat \<Rightarrow> nat \<Rightarrow> token list \<Rightarrow> error + (token list \<times> bool list)"
where
  "test_row mask_token eos_token pad_token max_len i seq =
     (case eos_index eos_token seq of
        Inl e \<Rightarrow> Inl e
      | Inr seq_len \<Rightarrow>
          (let row = take (seq_len + 1) seq @ drop (seq_len + 1) (replicate max_len pad_token);
               idx = mask_indices i seq_len;
               should_mask = fold (\<lambda>k r. r[k := True]) idx (replicate max_len False);
               masked_inputs = fold (\<lambda>k r. r[k := mask_token]) idx row
           in Inr (masked_inputs, should_mask)))"

definition test_masking ::
  "token \<Rightarrow> token \<Rightarrow> token \<Rightarrow> token list list \<Rightarrow> error + (token list list \<times> bool list list)"
where
  "test_masking mask_token eos_token pad_token inputs =
     (if inputs = [] then Inl ValueError
      else
        (let max_len = foldr max (map length inputs) 0
         in case collect (map (\<lambda>(i, seq). test_row mask_token eos_token pad_token max_len i seq)
                            (enumerate 0 inputs)) of
              Inl e \<Rightarrow> Inl e
            | Inr res \<Rightarrow> Inr (map fst res, map snd res)))"

text \<open>What a masking call promises about its two results, position by position.\<close>

definition masking_ok ::
  "token \<Rightarrow> token \<Rightarrow> token \<Rightarrow> token list list \<Rightarrow> token list list \<Rightarrow> bool list list \<Rightarrow> bool"
where
  "masking_ok mask_token eos_token pad_token inputs masked ind =
     (length masked = length inputs \<and> length ind = length inputs \<and>
      list_all (\<lambda>i.
        length (masked ! i) = length (inputs ! i) \<and> length (ind ! i) = length (inputs ! i) \<and>
        list_all (\<lambda>j.
          (ind ! i ! j \<longrightarrow> inputs ! i ! j \<noteq> pad_token \<and> inputs ! i ! j \<noteq> eos_token) \<and>
          (masked ! i ! j = mask_token \<longleftrightarrow> ind ! i ! j) \<and>
          (\<not> ind ! i ! j \<longrightarrow> masked ! i ! j = inputs ! i ! j))
          [0..<length (inputs ! i)])
        [0..<length inputs])"

text \<open>
  The shape of a sequence of the data model: ordinary tokens, then either nothing or one
  \<open>eos_token\<close> followed by \<open>pad_token\<close> only.
\<close>

definition well_formed :: "token \<Rightarrow> token \<Rightarrow> token list \<Rightarrow> bool" where
  "well_formed eos_token pad_token seq =
     (let body = takeWhile (\<lambda>x. x \<noteq> eos_token) seq;
          rest = dropWhile (\<lambda>x. x \<noteq> eos_token) seq
      in list_all (\<lambda>x. x \<noteq> pad_token) body \<and> list_all (\<lambda>x. x = pad_token) (tl rest))"

text \<open>The valid length in the words of the specification: the index of the first
  \<open>eos_token\<close>, or the full length when there is none.\<close>

definition valid_length :: "token \<Rightarrow> token list \<Rightarrow> nat" where
  "valid_length eos_token seq = length (takeWhile (\<lambda>x. x \<noteq> eos_token) seq)"

section \<open>Schedules\<close>

record config =
  max_epochs :: int
  learning_rate :: real
  lr_decay :: bool
  warmup_iters :: int
  final_iters :: int
  start_mask_rate :: rat
  end_mask_rate :: rat
  ckpt_dir :: "string option"
  samples_dir :: "string option"
  sample_every :: int

definition lr_mult :: "config \<Rightarrow> int \<Rightarrow> real" where
  "lr_mult cfg iters =
     (if iters < warmup_iters cfg
      then real_of_int iters / real_of_int (max 1 (warmup_iters cfg))
      else
        (let progress = min 1 (real_of_int (iters - warmup_iters cfg)
                                / real_of_int (max 1 (final_iters cfg - warmup_iters cfg)))
         in max (1 / 10) (1 / 2 * (1 + cos (pi * progress)))))"

text \<open>The multiplier in the words of the specification, with the two-sided clamp.\<close>

definition spec_multiplier :: "int \<Rightarrow> int \<Rightarrow> int \<Rightarrow> real" where
  "spec_multiplier warmup final iteration =
     (if iteration < warmup then real_of_int iteration / real_of_int (max 1 warmup)
      else max (1 / 10)
             (1 / 2 * (1 + cos (pi * max 0 (min 1 (real_of_int (iteration - warmup)
                                                     / real_of_int (max 1 (final - warmup))))))))"

definition train_mask_rate :: "config \<Rightarrow> rat \<Rightarrow> rat" where
  "train_mask_rate cfg u = start_mask_rate cfg + (end_mask_rate cfg - start_mask_rate cfg) * u"

definition eval_mask_rate :: "config \<Rightarrow> nat \<Rightarrow> nat \<Rightarrow> rat" where
  "eval_mask_rate cfg it n_batches =
     15 / 100 + (7 / 10 - 15 / 100) * min (of_nat it / of_nat n_batches) 1"

text \<open>An example stream for concrete runs: pairwise distinct values in (0,1).\<close>

definition example_stream :: stream where
  "example_stream s k = 1 / (of_nat k + 2)"

text \<open>The values of \<open>TrainerConfig\<close> as the class declares them.\<close>

definition default_config :: config where
  "default_config =
     \<lparr>max_epochs = 10, learning_rate = 3 / 10000, lr_decay = True, warmup_iters = 5000,
      final_iters = 25000, start_mask_rate = 15 / 100, end_mask_rate = 7 / 10,
      ckpt_dir = None, samples_dir = None, sample_every = 1\<rparr>"

section \<open>Gradient check and one pass over the data: \<open>run_epoch\<close>\<close>

text \<open>
  \<open>run_epoch\<close> stands for the method \<open>run_epoch_\<close> of the source (a name cannot end
  in an underscore here). Losses and gradients are floating-point values that the code
  tests for NaN and compares, so here a value is finite, an infinity or NaN (\<open>fval\<close>);
  \<open>flt\<close> is the comparison \<open><\<close> of floats, false whenever a NaN takes part, and \<open>fadd\<close>
  their sum. The parameters of the model are given by name with their gradient (\<open>None\<close>
  when a parameter has none), as \<open>loss.backward()\<close> and the library call
  \<open>clip_grad_norm_\<close> leave them: both are collaborators outside the source, and what they
  leave is an input here. \<open>check_for_nan_gradients\<close> returns the line it prints together
  with its result.
\<close>

datatype fval = Fin rat | PInf | NInf | NaN

definition isnan :: "fval \<Rightarrow> bool" where
  "isnan v = (v = NaN)"

fun flt :: "fval \<Rightarrow> fval \<Rightarrow> bool" where
  "flt NaN b = False"
| "flt a NaN = False"
| "flt (Fin a) (Fin b) = (a < b)"
| "flt (Fin a) PInf = True"
| "flt NInf (Fin b) = True"
| "flt NInf PInf = True"
| "flt a b = False"

fun fadd :: "fval \<Rightarrow> fval \<Rightarrow> fval" where
  "fadd NaN b = NaN"
| "fadd a NaN = NaN"
| "fadd PInf NInf = NaN"
| "fadd NInf PInf = NaN"
| "fadd PInf b = PInf"
| "fadd a PInf = PInf"
| "fadd NInf b = NInf"
| "fadd a NInf = NInf"
| "fadd (Fin a) (Fin b) = Fin (a + b)"

definition np_mean :: "fval list \<Rightarrow> fval" where
  "np_mean xs =
     (if xs = [] then NaN
      else case foldl fadd (Fin 0) xs of Fin s \<Rightarrow> Fin (s / of_nat (length xs)) | v \<Rightarrow> v)"

type_synonym params = "(string \<times> fval list option) list"

fun check_for_nan_gradients :: "params \<Rightarrow> string list \<times> bool" where
  "check_for_nan_gradients [] = ([], False)"
| "check_for_nan_gradients ((name, grad) # ps) =
     (case grad of
        None \<Rightarrow> check_for_nan_gradients ps
      | Some gr \<Rightarrow>
          if 0 < length (filter isnan gr) then ([name @ '' has NaN gradients''], True)
          else check_for_nan_gradients ps)"

text \<open>
  A batch as the loop meets it: the tensor \<open>y\<close> from the loader (\<open>y_batch\<close>), the value
  \<open>u_draw\<close> that \<open>random.random()\<close> returns for it, the state \<open>gen_at\<close> of torch's
  generator when the batch is masked (the loader's shuffling and the model draw from the
  same generator, so the state is not threaded from batch to batch), and what the model
  collaborator makes of the batch: the loss, and the gradients left after
  back-propagation and clipping.
\<close>

record batch =
  y_batch :: "token list list"
  u_draw :: rat
  gen_at :: rng
  loss :: fval
  grads :: params

record tokens =
  mask_tok :: token
  eos_tok :: token
  pad_tok :: token

datatype pyval = PyNone | PyFloat fval

text \<open>
  What the trainer mutates: the iteration counter, the learning rate written to the
  optimizer's parameter groups, the number of \<open>optimizer.step()\<close> calls, the lines
  printed by \<open>print\<close> (the f-string line of \<open>train\<close> apart), the locals \<open>best_loss\<close> and \<open>test_loss\<close> of \<open>train\<close>
  (\<open>test_loss\<close> is \<open>None\<close> while the local is unbound), the \<open>id\<close> of every checkpoint
  written, and the epochs for which \<open>self.test\<close> ran. Progress-bar and wandb output
  is not modelled.
\<close>

record state =
  iters :: int
  lr :: real
  opt_steps :: nat
  printed :: "string list"
  best_loss :: pyval
  test_loss :: "pyval option"
  saved :: "int option list"
  sampled :: "int list"

definition optimizer_step :: "config \<Rightarrow> state \<Rightarrow> state" where
  "optimizer_step cfg st =
     (let st1 = st\<lparr>opt_steps := opt_steps st + 1\<rparr>;
          st2 = st1\<lparr>iters := iters st1 + 1\<rparr>
      in if lr_decay cfg then st2\<lparr>lr := learning_rate cfg * lr_mult cfg (iters st2)\<rparr> else st2)"

fun train_pass :: "stream \<Rightarrow> tokens \<Rightarrow> config \<Rightarrow> state \<Rightarrow> batch list \<Rightarrow> error + state" where
  "train_pass gen tk cfg st [] = Inr st"
| "train_pass gen tk cfg st (b # bs) =
     (case BLT_masking gen (mask_tok tk) (eos_tok tk) (pad_tok tk)
             (train_mask_rate cfg (u_draw b)) True (gen_at b) (y_batch b) of
        (Inl e, g) \<Rightarrow> Inl e
      | (Inr x_masks, g) \<Rightarrow>
          (let (out, found) = check_for_nan_gradients (grads b);
               st2 = st\<lparr>printed := printed st @ out\<rparr>
           in if found
              then Inr (st2\<lparr>printed := printed st2 @ [''NaN gradients detected. Aborting training.'']\<rparr>)
              else train_pass gen tk cfg (optimizer_step cfg st2) bs))"

fun eval_pass ::
  "stream \<Rightarrow> tokens \<Rightarrow> config \<Rightarrow> nat \<Rightarrow> state \<Rightarrow> nat \<Rightarrow> batch list \<Rightarrow> fval list
     \<Rightarrow> error + (fval list \<times> state)"
where
  "eval_pass gen tk cfg n st it [] losses = Inr (losses, st)"
| "eval_pass gen tk cfg n st it (b # bs) losses =
     (case BLT_masking gen (mask_tok tk) (eos_tok tk) (pad_tok tk)
             (eval_mask_rate cfg it n) False (gen_at b) (y_batch b) of
        (Inl e, g) \<Rightarrow> Inl e
      | (Inr x_masks, g) \<Rightarrow> eval_pass gen tk cfg n st (it + 1) bs (losses @ [loss b]))"

definition run_epoch ::
  "stream \<Rightarrow> tokens \<Rightarrow> config \<Rightarrow> state \<Rightarrow> bool \<Rightarrow> batch list \<Rightarrow> error + (pyval \<times> state)"
where
  "run_epoch gen tk cfg st is_train data =
     (if is_train
      then (case train_pass gen tk cfg st data of
              Inl e \<Rightarrow> Inl e
            | Inr st' \<Rightarrow> Inr (PyNone, st'))
      else (case eval_pass gen tk cfg (length data) st 0 data [] of
              Inl e \<Rightarrow> Inl e
            | Inr (losses, st') \<Rightarrow>
                if losses = [] then Inl IndexError else Inr (PyFloat (np_mean losses), st')))"

section \<open>The epoch loop: \<open>train\<close>\<close>

text \<open>
  \<open>int(temp)\<close> on the line read: surrounding white space is dropped, one sign is allowed,
  then decimal digits with single underscores between them; anything else raises
  \<open>ValueError\<close> (\<open>None\<close>). Only ASCII is modelled.
\<close>

definition is_space :: "char \<Rightarrow> bool" where
  "is_space c = (of_char c \<in> set [9, 10, 11, 12, 13, 28, 29, 30, 31, 32 :: nat])"

definition strip :: "string \<Rightarrow> string" where
  "strip s = rev (dropWhile is_space (rev (dropWhile is_space s)))"

definition digit_of :: "char \<Rightarrow> nat option" where
  "digit_of c = (let k = of_char c :: nat in if 48 \<le> k \<and> k \<le> 57 then Some (k - 48) else None)"

fun py_digits :: "nat \<Rightarrow> bool \<Rightarrow> string \<Rightarrow> nat option" where
  "py_digits acc prev [] = (if prev then Some acc else None)"
| "py_digits acc prev (c # cs) =
     (case digit_of c of
        Some d \<Rightarrow> py_digits (10 * acc + d) True cs
      | None \<Rightarrow> if c = CHR ''_'' \<and> prev then py_digits acc False cs else None)"

definition py_int :: "string \<Rightarrow> int option" where
  "py_int str =
     (case strip str of
        [] \<Rightarrow> None
      | c # cs \<Rightarrow>
          if c = CHR ''-'' then map_option (\<lambda>n. - int n) (py_digits 0 False cs)
          else if c = CHR ''+'' then map_option int (py_digits 0 False cs)
          else map_option int (py_digits 0 False (c # cs)))"

text \<open>
  The collaborators of the loop: whether a test set is configured, the batches of the
  training pass and of the test pass of each epoch, and the special tokens of the
  training set.
\<close>

record env =
  has_test :: bool
  train_data :: "int \<Rightarrow> batch list"
  test_data :: "int \<Rightarrow> batch list"
  toks :: tokens

definition save_checkpoint :: "config \<Rightarrow> int option \<Rightarrow> state \<Rightarrow> error + state" where
  "save_checkpoint cfg ckpt_id st =
     (case ckpt_dir cfg of
        None \<Rightarrow> Inl TypeError
      | Some d \<Rightarrow> Inr (st\<lparr>saved := saved st @ [ckpt_id]\<rparr>))"

definition py_lt :: "pyval \<Rightarrow> pyval \<Rightarrow> error + bool" where
  "py_lt a b = (case (a, b) of (PyFloat x, PyFloat z) \<Rightarrow> Inr (flt x z) | _ \<Rightarrow> Inl TypeError)"

definition bindE :: "error + 'a \<Rightarrow> ('a \<Rightarrow> error + 'b) \<Rightarrow> error + 'b" where
  "bindE m f = (case m of Inl e \<Rightarrow> Inl e | Inr x \<Rightarrow> f x)"

text \<open>
  The body of the \<open>while\<close> loop up to the test on \<open>max_epochs\<close>, for the epoch number
  already incremented: the training pass, the test pass when a test set is configured,
  the checkpoint of the epoch, \<open>good_model\<close>, the \<open>print\<close> that reads \<open>test_loss\<close>, the
  best checkpoint, and the sampling.
\<close>

definition good_model :: "env \<Rightarrow> state \<Rightarrow> error + bool" where
  "good_model ev st =
     (if \<not> has_test ev then Inr True
      else case test_loss st of
             None \<Rightarrow> Inl UnboundLocalError
           | Some v \<Rightarrow> if v = PyNone then Inr True else py_lt v (best_loss st))"

definition epoch_body :: "stream \<Rightarrow> env \<Rightarrow> config \<Rightarrow> int \<Rightarrow> state \<Rightarrow> error + state" where
  "epoch_body gen ev cfg epoch st =
     bindE (run_epoch gen (toks ev) cfg st True (train_data ev epoch)) (\<lambda>(r, st1).
     bindE (if has_test ev
            then bindE (run_epoch gen (toks ev) cfg st1 False (test_data ev epoch))
                   (\<lambda>(v, st2). Inr (st2\<lparr>test_loss := Some v\<rparr>))
            else Inr st1) (\<lambda>st2.
     bindE (save_checkpoint cfg (Some epoch) st2) (\<lambda>st3.
     bindE (good_model ev st3) (\<lambda>good.
     bindE (case test_loss st3 of None \<Rightarrow> Inl UnboundLocalError | Some v \<Rightarrow> Inr v) (\<lambda>shown.
     bindE (if ckpt_dir cfg \<noteq> None \<and> good
            then save_checkpoint cfg None (st3\<lparr>best_loss := shown\<rparr>)
            else Inr st3) (\<lambda>st4.
     if samples_dir cfg \<noteq> None
     then (if sample_every cfg = 0 then Inl ZeroDivisionError
           else if (epoch + 1) mod sample_every cfg = 0
                then Inr (st4\<lparr>sampled := sampled st4 @ [epoch]\<rparr>)
                else Inr st4)
     else Inr st4))))))"

text \<open>
  The \<open>while True\<close> loop, entered with the number \<open>epoch0\<close> of epochs done. \<open>stdin\<close> is
  the list of lines that \<open>input()\<close> will return; reading past its end raises \<open>EOFError\<close>.
  The configuration is an argument because the loop writes \<open>max_epochs\<close>. A positive
  number extends \<open>max_epochs\<close> and continues; any other number prints a line, leaves the
  \<open>try\<close> statement and so goes round the loop again; \<open>ValueError\<close> prints a line and
  breaks. The prompt printed before reading is not recorded. \<open>train\<close> starts the loop
  with \<open>best_loss\<close> infinite and the local \<open>test_loss\<close> unbound.
\<close>

record final =
  end_config :: config
  end_epoch :: int
  end_stdin :: "string list"
  end_state :: state

function train_loop ::
  "stream \<Rightarrow> env \<Rightarrow> config \<Rightarrow> int \<Rightarrow> string list \<Rightarrow> state \<Rightarrow> error + final"
where
  "train_loop gen ev cfg epoch0 stdin st =
     (case epoch_body gen ev cfg (epoch0 + 1) st of
        Inl e \<Rightarrow> Inl e
      | Inr st' \<Rightarrow>
          if epoch0 + 1 \<ge> max_epochs cfg
          then (case stdin of
                  [] \<Rightarrow> Inl EOFError
                | temp # rest \<Rightarrow>
                    (case py_int temp of
                       None \<Rightarrow>
                         Inr \<lparr>end_config = cfg, end_epoch = epoch0 + 1, end_stdin = rest,
                              end_state = st'\<lparr>printed := printed st'
                                @ [''Invalid input. Please enter a valid number.'']\<rparr>\<rparr>
                     | Some n \<Rightarrow>
                         if n > 0
                         then train_loop gen ev (cfg\<lparr>max_epochs := max_epochs cfg + n\<rparr>)
                                (epoch0 + 1) rest st'
                         else train_loop gen ev cfg (epoch0 + 1) rest
                                (st'\<lparr>printed := printed st' @ [''Please enter a positive number.'']\<rparr>)))
          else train_loop gen ev cfg (epoch0 + 1) stdin st')"
  by pat_completeness auto
termination
  by (relation "measures [\<lambda>(gen, ev, cfg, epoch0, stdin, st). length stdin,
                          \<lambda>(gen, ev, cfg, epoch0, stdin, st). nat (max_epochs cfg - epoch0)]")
     auto

definition train :: "stream \<Rightarrow> env \<Rightarrow> config \<Rightarrow> string list \<Rightarrow> state \<Rightarrow> error + final" where
  "train gen ev cfg stdin st =
     train_loop gen ev cfg 0 stdin (st\<lparr>best_loss := PyFloat PInf, test_loss := None\<rparr>)"

text \<open>A state, the special tokens, a batch, a configuration and two environments for
  concrete runs.\<close>

definition start_state :: state where
  "start_state =
     \<lparr>iters = 0, lr = 3 / 10000, opt_steps = 0, printed = [],
      best_loss = PyFloat PInf, test_loss = None, saved = [], sampled = []\<rparr>"

definition example_tokens :: tokens where
  "example_tokens = \<lparr>mask_tok = 102, eos_tok = 100, pad_tok = 101\<rparr>"

definition example_batch :: "fval \<Rightarrow> params \<Rightarrow> batch" where
  "example_batch l gs = \<lparr>y_batch = [[5, 1, 2, 100, 101]], u_draw = 1 / 2, gen_at = \<lparr>seed = 7, drawn = 0\<rparr>,
      loss = l, grads = gs\<rparr>"

definition example_config :: config where
  "example_config = default_config\<lparr>max_epochs := 1, lr_decay := False, ckpt_dir := Some ''save''\<rparr>"

definition example_env :: "bool \<Rightarrow> env" where
  "example_env with_test =
     \<lparr>has_test = with_test,
      train_data = (\<lambda>epoch. [example_batch (Fin 1) [(''w'', Some [Fin 1])]]),
      test_data = (\<lambda>epoch. [example_batch (Fin (1 / of_int (epoch + 1))) []]),
      toks = example_tokens\<rparr>"




section \<open>Auxiliary facts about sorting and counting\<close>

lemma sorted_split_filter:
  fixes xs :: "rat list"
  shows "sorted xs \<Longrightarrow> xs = filter (\<lambda>x. x < a) xs @ filter (\<lambda>x. \<not> x < a) xs"
proof (induction xs)
  case Nil
  then show ?case by simp
next
  case (Cons x xs)
  show ?case
  proof (cases "x < a")
    case True
    with Cons show ?thesis by simp
  next
    case False
    with Cons.prems have "\<forall>y\<in>set xs. \<not> y < a" by auto
    then have "filter (\<lambda>x. x < a) xs = []" "filter (\<lambda>x. \<not> x < a) xs = xs"
      by (simp_all add: filter_empty_conv filter_id_conv)
    with False show ?thesis by simp
  qed
qed

lemma sorted_distinct_filter_le:
  fixes F :: "rat list"
  shows "sorted F \<Longrightarrow> distinct F \<Longrightarrow> m < length F \<Longrightarrow> filter (\<lambda>x. x \<le> F ! m) F = take (Suc m) F"
proof (induction F arbitrary: m)
  case Nil
  then show ?case by simp
next
  case (Cons x xs)
  show ?case
  proof (cases m)
    case 0
    from Cons.prems have "\<forall>y\<in>set xs. \<not> y \<le> x" by fastforce
    then have "filter (\<lambda>y. y \<le> x) xs = []" by (simp add: filter_empty_conv)
    with 0 show ?thesis by simp
  next
    case (Suc k)
    with Cons.prems have k: "k < length xs" by simp
    then have "x \<le> xs ! k" using Cons.prems(1) by simp
    moreover have "filter (\<lambda>y. y \<le> xs ! k) xs = take (Suc k) xs"
      using Cons.IH [of k] Cons.prems k by simp
    ultimately show ?thesis using Suc by simp
  qed
qed


lemma scores_below_2:
  "length bs = length rs \<Longrightarrow> \<forall>r\<in>set rs. r < 2 \<Longrightarrow>
   length (filter (\<lambda>x. x < 2) (map2 (\<lambda>b r. if b then r else (2::rat)) bs rs)) = length (filter id bs)"
  by (induction bs rs rule: list_induct2) auto

lemma scores_distinct:
  "length bs = length rs \<Longrightarrow> distinct rs \<Longrightarrow>
   distinct (filter (\<lambda>x. x < 2) (map2 (\<lambda>b r. if b then r else (2::rat)) bs rs)) \<and>
   set (filter (\<lambda>x. x < 2) (map2 (\<lambda>b r. if b then r else (2::rat)) bs rs)) \<subseteq> set rs"
  by (induction bs rs rule: list_induct2) auto

lemma masked_count:
  "length bs = length rs \<Longrightarrow> c < 2 \<Longrightarrow>
   length (filter id (map2 (\<lambda>b r. b \<and> r \<le> c) bs (map2 (\<lambda>b r. if b then r else (2::rat)) bs rs)))
     = length (filter (\<lambda>x. x \<le> c) (map2 (\<lambda>b r. if b then r else (2::rat)) bs rs))"
  by (induction bs rs rule: list_induct2) auto

lemma filter_id_map: "filter id (map P xs) = map P (filter P xs)"
  by (induction xs) auto

lemma cutoff_below_2:
  fixes R :: "rat list"
  assumes m: "m \<le> length (filter (\<lambda>x. x < 2) R)"
  shows "sort (R @ [- 1]) ! m < 2"
proof -
  let ?S = "sort (R @ [- 1])"
  let ?F = "filter (\<lambda>x. x < 2) ?S"
  let ?G = "filter (\<lambda>x. \<not> x < 2) ?S"
  have S: "?S = ?F @ ?G" by (rule sorted_split_filter) simp
  have "mset ?F = mset (filter (\<lambda>x. x < 2) (R @ [- 1]))"
    by (simp only: mset_filter mset_sort)
  then have "length ?F = length (filter (\<lambda>x. x < 2) (R @ [- 1]))"
    by (metis size_mset)
  with m have mF: "m < length ?F" by simp
  have nth: "?S ! m = ?F ! m" using mF by (subst S) (simp add: nth_append)
  have "?F ! m \<in> set ?F" using mF by (rule nth_mem)
  then show ?thesis using nth by simp
qed

lemma cutoff_count:
  fixes R :: "rat list"
  assumes d: "distinct (filter (\<lambda>x. x < 2) R)"
    and lo: "\<forall>x\<in>set R. 0 \<le> x"
    and m: "m \<le> length (filter (\<lambda>x. x < 2) R)"
  shows "length (filter (\<lambda>x. x \<le> sort (R @ [- 1]) ! m) R) = m"
proof -
  let ?S = "sort (R @ [- 1])"
  let ?F = "filter (\<lambda>x. x < 2) ?S"
  let ?G = "filter (\<lambda>x. \<not> x < 2) ?S"
  have S: "?S = ?F @ ?G" by (rule sorted_split_filter) simp
  have msF: "mset ?F = mset (filter (\<lambda>x. x < 2) (R @ [- 1]))"
    by (simp only: mset_filter mset_sort)
  have "- 1 \<notin> set R" using lo by fastforce
  then have dF0: "distinct (filter (\<lambda>x. x < 2) (R @ [- 1]))" using d by simp
  have dF: "distinct ?F" using dF0 msF by (metis mset_eq_imp_distinct_iff)
  have sF: "sorted ?F" by (rule sorted_wrt_filter) simp
  have "length ?F = length (filter (\<lambda>x. x < 2) (R @ [- 1]))"
    using msF by (metis size_mset)
  with m have mF: "m < length ?F" by simp
  have nth: "?S ! m = ?F ! m" using mF by (subst S) (simp add: nth_append)
  have c2: "?S ! m < 2" using m by (rule cutoff_below_2)
  have "filter (\<lambda>x. x \<le> ?F ! m) ?F = take (Suc m) ?F"
    using sF dF mF by (rule sorted_distinct_filter_le)
  then have cF: "length (filter (\<lambda>x. x \<le> ?S ! m) ?F) = Suc m" using nth mF by simp
  have "filter (\<lambda>x. x \<le> ?S ! m) ?G = []" using c2 by (auto simp: filter_empty_conv)
  then have "length (filter (\<lambda>x. x \<le> ?S ! m) ?S) = Suc m"
    using cF by (subst S) simp
  moreover have "length (filter (\<lambda>x. x \<le> ?S ! m) ?S) = length (filter (\<lambda>x. x \<le> ?S ! m) (R @ [- 1]))"
  proof -
    have "mset (filter (\<lambda>x. x \<le> ?S ! m) ?S) = mset (filter (\<lambda>x. x \<le> ?S ! m) (R @ [- 1]))"
      by (simp only: mset_filter mset_sort)
    then show ?thesis by (metis size_mset)
  qed
  moreover have "- 1 \<le> ?S ! m"
  proof -
    have "?S ! m \<in> set ?S" using mF S by (metis nth length_append nth_mem trans_less_add1)
    then have "?S ! m \<in> set (R @ [- 1])" by simp
    then show ?thesis using lo by fastforce
  qed
  ultimately show ?thesis by simp
qed

lemma collect_map_Inr: "collect (map Inr xs) = Inr xs"
  by (induction xs) auto

lemma collect_InrD: "collect rs = Inr xs \<Longrightarrow> rs = map Inr xs"
proof (induction rs arbitrary: xs)
  case Nil
  then show ?case by auto
next
  case (Cons r rs)
  then show ?case by (cases r) (auto split: sum.splits)
qed

lemma rand_rows_shape:
  "list_all2 (\<lambda>row r. length r = length row \<and> set r \<subseteq> range (gen s)) rows (rand_rows gen s k rows)"
  by (induction rows arbitrary: k) auto

lemma lens_scores:
  assumes "length rs = length xs" "\<forall>r\<in>set rs. r < 2"
  shows "length (filter (\<lambda>x. x < 2) (rand_scores eos_token pad_token xs rs)) = lens eos_token pad_token xs"
  unfolding rand_scores_def lens_def using assms by (intro scores_below_2) simp_all

subsection \<open>Rounding to single precision\<close>

lemma rhe_lower: "\<lfloor>q\<rfloor> \<le> rhe q"
  by (simp add: rhe_def Let_def)

lemma rhe_upper: "rhe q \<le> \<lceil>q\<rceil>"
proof -
  have "\<lfloor>q\<rfloor> \<le> \<lceil>q\<rceil>" by (rule floor_le_ceiling)
  moreover have "\<lfloor>q\<rfloor> + 1 \<le> \<lceil>q\<rceil>" if "0 < q - of_int \<lfloor>q\<rfloor>"
  proof -
    have "of_int \<lfloor>q\<rfloor> < q" using that by simp
    then have "\<lfloor>q\<rfloor> < \<lceil>q\<rceil>" by (simp add: less_ceiling_iff)
    then show ?thesis by simp
  qed
  ultimately show ?thesis by (auto simp: rhe_def Let_def)
qed

lemma rhe_le_int: "q \<le> of_int M \<Longrightarrow> rhe q \<le> M"
  using rhe_upper [of q] by (meson ceiling_le order_trans)

lemma rhe_ge_int: "of_int M \<le> q \<Longrightarrow> M \<le> rhe q"
  using rhe_lower [of q] by (meson le_floor_iff order_trans)

lemma ulp32_pos: "0 < ulp32 x"
  by (simp add: ulp32_def Let_def)

lemma ulp32_cases:
  assumes "0 < x"
  shows "(\<exists>k. ulp32 x = 1 / 2 ^ k) \<or> (\<exists>k. 1 \<le> k \<and> ulp32 x = 2 ^ k \<and> 2 ^ 23 * 2 ^ k \<le> x)"
proof (cases "1 \<le> x")
  case False
  then have "ulp32 x = 1 / 2 ^ (min 149 (nat (bitlen (\<lceil>1 / x\<rceil> - 1)) + 23))"
    by (simp add: ulp32_def)
  then show ?thesis by blast
next
  case True
  let ?e = "nat (bitlen \<lfloor>x\<rfloor> - 1)"
  have fx: "0 < \<lfloor>x\<rfloor>" using True by simp
  show ?thesis
  proof (cases "?e \<le> 23")
    case le: True
    have "ulp32 x = 1 / 2 ^ (23 - ?e)"
    proof (cases "?e = 23")
      case True
      with \<open>1 \<le> x\<close> show ?thesis by (simp add: ulp32_def Let_def)
    next
      case False
      with le have "\<not> 23 \<le> ?e" by simp
      with \<open>1 \<le> x\<close> show ?thesis by (simp add: ulp32_def Let_def)
    qed
    then show ?thesis by blast
  next
    case False
    then have k: "1 \<le> ?e - 23" and e: "23 \<le> ?e" by simp_all
    have u: "ulp32 x = 2 ^ (?e - 23)" using True e by (simp add: ulp32_def Let_def)
    have "(2 :: int) ^ ?e \<le> \<lfloor>x\<rfloor>" using bitlen_bounds [OF fx] by simp
    then have "of_int ((2 :: int) ^ ?e) \<le> (of_int \<lfloor>x\<rfloor> :: rat)" by (simp only: of_int_le_iff)
    also have "\<dots> \<le> x" by simp
    finally have "(2 :: rat) ^ ?e \<le> x" by simp
    moreover have "(2 :: rat) ^ 23 * 2 ^ (?e - 23) = 2 ^ ?e"
      using e by (simp only: power_add [symmetric]) simp
    ultimately have "(2 :: rat) ^ 23 * 2 ^ (?e - 23) \<le> x" by simp
    with k u show ?thesis by blast
  qed
qed

lemma round32_pos_eq: "0 < x \<Longrightarrow> round32 x = of_int (rhe (x / ulp32 x)) * ulp32 x"
  by (simp add: round32_def)

lemma round32_le:
  assumes x: "0 < x" and le: "x \<le> of_nat m" and m: "m \<le> 2 ^ 24"
  shows "round32 x \<le> of_nat m"
proof -
  from ulp32_cases [OF x] show ?thesis
  proof (elim disjE exE conjE)
    fix k assume u: "ulp32 x = 1 / 2 ^ k"
    have "x / ulp32 x = x * 2 ^ k" by (simp add: u)
    also have "\<dots> \<le> of_nat m * 2 ^ k" using le by simp
    also have "\<dots> = of_int (int m * 2 ^ k)" by simp
    finally have "rhe (x / ulp32 x) \<le> int m * 2 ^ k" by (rule rhe_le_int)
    then have "(of_int (rhe (x / ulp32 x)) :: rat) \<le> of_int (int m * 2 ^ k)"
      by (simp only: of_int_le_iff)
    then have "of_int (rhe (x / ulp32 x)) * ulp32 x \<le> of_int (int m * 2 ^ k) * ulp32 x"
      using ulp32_pos [of x] by (simp only: mult_le_cancel_right_pos)
    also have "\<dots> = of_nat m" by (simp add: u)
    finally show ?thesis by (simp only: round32_pos_eq [OF x])
  next
    fix k assume k: "1 \<le> k" and u: "ulp32 x = 2 ^ k" and lo: "(2 :: rat) ^ 23 * 2 ^ k \<le> x"
    have "(of_nat m :: rat) \<le> 2 ^ 24" using m by (metis of_nat_le_iff of_nat_numeral of_nat_power)
    moreover have "(2 :: rat) ^ 24 \<le> 2 ^ 23 * 2 ^ k"
    proof -
      have "(2 :: rat) ^ 24 = 2 ^ 23 * 2 ^ 1" by simp
      also have "\<dots> \<le> 2 ^ 23 * 2 ^ k" using k by (intro mult_left_mono power_increasing) simp_all
      finally show ?thesis .
    qed
    ultimately have eq: "x = 2 ^ 23 * 2 ^ k" and xm: "x = of_nat m" using lo le by simp_all
    have "x / ulp32 x = x / 2 ^ k" by (simp only: u)
    also have "\<dots> = (2 ^ 23 * 2 ^ k) / 2 ^ k" using eq by simp
    also have "\<dots> = of_int (2 ^ 23)" by simp
    finally have "x / ulp32 x \<le> of_int (2 ^ 23)" by simp
    then have "rhe (x / ulp32 x) \<le> 2 ^ 23" by (rule rhe_le_int)
    then have "(of_int (rhe (x / ulp32 x)) :: rat) \<le> of_int (2 ^ 23)" by (simp only: of_int_le_iff)
    then have "of_int (rhe (x / ulp32 x)) * ulp32 x \<le> of_int (2 ^ 23) * ulp32 x"
      using ulp32_pos [of x] by (simp only: mult_le_cancel_right_pos)
    also have "\<dots> = 2 ^ 23 * 2 ^ k" by (simp add: u)
    also have "\<dots> = of_nat m" using eq xm by simp
    finally show ?thesis by (simp only: round32_pos_eq [OF x])
  qed
qed

lemma round32_ge:
  assumes x: "0 < x" and ge: "of_nat m \<le> x" and m: "m \<le> 2 ^ 24"
  shows "of_nat m \<le> round32 x"
proof -
  from ulp32_cases [OF x] show ?thesis
  proof (elim disjE exE conjE)
    fix k assume u: "ulp32 x = 1 / 2 ^ k"
    have "of_int (int m * 2 ^ k) = (of_nat m :: rat) * 2 ^ k" by simp
    also have "\<dots> \<le> x * 2 ^ k" using ge by simp
    also have "\<dots> = x / ulp32 x" by (simp add: u)
    finally have "int m * 2 ^ k \<le> rhe (x / ulp32 x)" by (rule rhe_ge_int)
    then have "(of_int (int m * 2 ^ k) :: rat) \<le> of_int (rhe (x / ulp32 x))"
      by (simp only: of_int_le_iff)
    then have "of_int (int m * 2 ^ k) * ulp32 x \<le> of_int (rhe (x / ulp32 x)) * ulp32 x"
      using ulp32_pos [of x] by (simp only: mult_le_cancel_right_pos)
    moreover have "of_int (int m * 2 ^ k) * ulp32 x = of_nat m" by (simp add: u)
    ultimately show ?thesis by (simp only: round32_pos_eq [OF x])
  next
    fix k assume k: "1 \<le> k" and u: "ulp32 x = 2 ^ k" and lo: "(2 :: rat) ^ 23 * 2 ^ k \<le> x"
    have m24: "(of_nat m :: rat) \<le> 2 ^ 24" using m by (metis of_nat_le_iff of_nat_numeral of_nat_power)
    have p: "(2 :: rat) ^ 24 \<le> 2 ^ 23 * 2 ^ k"
    proof -
      have "(2 :: rat) ^ 24 = 2 ^ 23 * 2 ^ 1" by simp
      also have "\<dots> \<le> 2 ^ 23 * 2 ^ k" using k by (intro mult_left_mono power_increasing) simp_all
      finally show ?thesis .
    qed
    have "of_int (2 ^ 23) \<le> x / ulp32 x" using lo by (simp add: u pos_le_divide_eq)
    then have "2 ^ 23 \<le> rhe (x / ulp32 x)" by (rule rhe_ge_int)
    then have "(of_int (2 ^ 23) :: rat) \<le> of_int (rhe (x / ulp32 x))" by (simp only: of_int_le_iff)
    then have "of_int (2 ^ 23) * ulp32 x \<le> of_int (rhe (x / ulp32 x)) * ulp32 x"
      using ulp32_pos [of x] by (simp only: mult_le_cancel_right_pos)
    moreover have "of_int (2 ^ 23) * ulp32 x = (2 :: rat) ^ 23 * 2 ^ k" by (simp add: u)
    ultimately have "(2 :: rat) ^ 23 * 2 ^ k \<le> round32 x" by (simp only: round32_pos_eq [OF x])
    with m24 p show ?thesis by linarith
  qed
qed

lemma round32_of_nat:
  assumes m: "m \<le> 2 ^ 24"
  shows "round32 (of_nat m) = of_nat m"
proof (cases "m = 0")
  case True
  then show ?thesis by (simp add: round32_def)
next
  case False
  have x: "(0 :: rat) < of_nat m" using False by simp
  from round32_le [OF x _ m] round32_ge [OF x _ m] show ?thesis by simp
qed

lemma round32_range:
  assumes "0 \<le> x" and "x \<le> of_nat m" and "m \<le> 2 ^ 24"
  shows "0 \<le> round32 x \<and> round32 x \<le> of_nat m"
proof (cases "x = 0")
  case True
  then show ?thesis by (simp add: round32_def)
next
  case False
  with assms(1) have x: "0 < x" by simp
  have "of_nat 0 \<le> round32 x" using x by (intro round32_ge) simp_all
  moreover have "round32 x \<le> of_nat m" using x assms(2,3) by (rule round32_le)
  ultimately show ?thesis by simp
qed

subsection \<open>The target count and the masked positions\<close>

lemma lens_le_length: "lens eos_token pad_token xs \<le> length xs"
proof -
  have "length (filter id (map (maskable eos_token pad_token) xs))
          \<le> length (map (maskable eos_token pad_token) xs)"
    by (rule length_filter_le)
  then show ?thesis by (simp add: lens_def)
qed

lemma mask_lens_bounds:
  assumes r0: "0 \<le> mask_rate" and r1: "mask_rate \<le> 1" and n: "length xs \<le> 2 ^ 24"
  shows "0 \<le> mask_lens eos_token pad_token mask_rate xs"
    and "mask_lens eos_token pad_token mask_rate xs \<le> int (lens eos_token pad_token xs)"
proof -
  let ?n = "lens eos_token pad_token xs"
  let ?p = "of_nat ?n * round32 mask_rate"
  have l: "?n \<le> 2 ^ 24" using n lens_le_length [of eos_token pad_token xs] by (rule le_trans [rotated])
  have n': "round32 (of_nat ?n) = of_nat ?n" using l by (rule round32_of_nat)
  have "mask_rate \<le> of_nat 1" using r1 by simp
  from round32_range [OF r0 this] have r: "0 \<le> round32 mask_rate \<and> round32 mask_rate \<le> 1" by simp
  have p0: "0 \<le> ?p" using r by simp
  have p1: "?p \<le> of_nat ?n" using r by (simp add: mult_left_le)
  from round32_range [OF p0 p1 l] have q: "0 \<le> round32 ?p" "round32 ?p \<le> of_nat ?n" by simp_all
  have m: "mask_lens eos_token pad_token mask_rate xs = \<lceil>round32 ?p\<rceil>"
    by (simp only: mask_lens_def n')
  from q(1) show "0 \<le> mask_lens eos_token pad_token mask_rate xs"
    unfolding m by (simp add: zero_le_ceiling)
  from q(2) have "\<lceil>round32 ?p\<rceil> \<le> \<lceil>of_nat ?n :: rat\<rceil>" by (rule ceiling_mono)
  then show "mask_lens eos_token pad_token mask_rate xs \<le> int (lens eos_token pad_token xs)"
    unfolding m by simp
qed

lemma mask_lens_zero:
  "lens eos_token pad_token xs = 0 \<Longrightarrow> mask_lens eos_token pad_token mask_rate xs = 0"
  by (simp add: mask_lens_def round32_def)

lemma BLT_row_gather:
  assumes len: "length rs = length xs" and hi: "\<forall>r\<in>set rs. r < 2"
    and m0: "0 \<le> mask_lens eos_token pad_token mask_rate xs"
    and m1: "mask_lens eos_token pad_token mask_rate xs \<le> int (lens eos_token pad_token xs)"
  shows "mask_lens eos_token pad_token mask_rate xs < int (length (sorted_rand eos_token pad_token xs rs))"
    and "\<exists>c. gather (sorted_rand eos_token pad_token xs rs) (mask_lens eos_token pad_token mask_rate xs) = Inr c \<and> c < 2"
proof -
  let ?m = "mask_lens eos_token pad_token mask_rate xs"
  let ?R = "rand_scores eos_token pad_token xs rs"
  have n: "length (filter (\<lambda>x. x < 2) ?R) = lens eos_token pad_token xs"
    using len hi by (rule lens_scores)
  have "length (filter (\<lambda>x. x < 2) ?R) \<le> length ?R" by (rule length_filter_le)
  then show b: "?m < int (length (sorted_rand eos_token pad_token xs rs))"
    using m1 n by (simp add: sorted_rand_def)
  have "nat ?m \<le> length (filter (\<lambda>x. x < 2) ?R)" using m0 m1 n by simp
  then have "sort (?R @ [- 1]) ! nat ?m < 2" by (rule cutoff_below_2)
  then show "\<exists>c. gather (sorted_rand eos_token pad_token xs rs) ?m = Inr c \<and> c < 2"
    using b m0 by (simp add: gather_def sorted_rand_def)
qed

lemma BLT_row_count:
  assumes len: "length rs = length xs" and rg: "\<forall>r\<in>set rs. 0 \<le> r \<and> r < 1"
    and d: "distinct rs \<or> lens eos_token pad_token xs = 0"
    and m0: "0 \<le> mask_lens eos_token pad_token mask_rate xs"
    and m1: "mask_lens eos_token pad_token mask_rate xs \<le> int (lens eos_token pad_token xs)"
  shows "\<exists>masked ind. BLT_row mask_token eos_token pad_token mask_rate xs rs = Inr (masked, ind) \<and>
           int (length (filter id ind)) = mask_lens eos_token pad_token mask_rate xs"
proof -
  let ?m = "mask_lens eos_token pad_token mask_rate xs"
  let ?bs = "map (maskable eos_token pad_token) xs"
  let ?R = "rand_scores eos_token pad_token xs rs"
  let ?c = "sort (?R @ [- 1]) ! nat ?m"
  have hi: "\<forall>r\<in>set rs. r < 2" using rg by fastforce
  have len': "length ?bs = length rs" using len by simp
  have n: "length (filter (\<lambda>x. x < 2) ?R) = lens eos_token pad_token xs"
    using len hi by (rule lens_scores)
  have dR: "distinct (filter (\<lambda>x. x < 2) ?R)"
  proof (cases "distinct rs")
    case True
    with scores_distinct [OF len'] show ?thesis by (simp add: rand_scores_def)
  next
    case False
    with d n have "filter (\<lambda>x. x < 2) ?R = []" by simp
    then show ?thesis by simp
  qed
  have lo: "\<forall>x\<in>set ?R. 0 \<le> x"
    using rg by (auto simp: rand_scores_def dest!: set_zip_rightD)
  have mle: "nat ?m \<le> length (filter (\<lambda>x. x < 2) ?R)" using m0 m1 n by simp
  have c2: "?c < 2" using mle by (rule cutoff_below_2)
  have cnt: "length (filter (\<lambda>x. x \<le> ?c) ?R) = nat ?m" using dR lo mle by (rule cutoff_count)
  have b: "?m < int (length (sorted_rand eos_token pad_token xs rs))"
    using len hi m0 m1 by (rule BLT_row_gather)
  have g: "gather (sorted_rand eos_token pad_token xs rs) ?m = Inr ?c"
    using b m0 by (simp add: gather_def sorted_rand_def)
  have "length (filter id (map2 (\<lambda>b r. b \<and> r \<le> ?c) ?bs ?R)) = nat ?m"
    using masked_count [OF len' c2] cnt by (simp add: rand_scores_def)
  then show ?thesis using g c2 m0 by (simp add: BLT_row_def Let_def)
qed

lemma collect_total: "\<forall>r\<in>set rs. \<exists>y. r = Inr y \<Longrightarrow> collect rs = Inr (map projr rs)"
  by (induction rs) auto

lemma drawn_scores_shape:
  assumes "i < length inputs"
  shows "length (drawn_scores gen training g inputs) = length inputs"
    and "length (drawn_scores gen training g inputs ! i) = length (inputs ! i)"
    and "set (drawn_scores gen training g inputs ! i) \<subseteq> range (gen (seed (if \<not> training then manual_seed 0 else g)))"
proof -
  let ?g = "if \<not> training then manual_seed 0 else g"
  have a: "list_all2 (\<lambda>row r. length r = length row \<and> set r \<subseteq> range (gen (seed ?g))) inputs
            (rand_rows gen (seed ?g) (drawn ?g) inputs)"
    by (rule rand_rows_shape)
  have d: "drawn_scores gen training g inputs = rand_rows gen (seed ?g) (drawn ?g) inputs"
    by (simp add: drawn_scores_def torch_rand_def)
  show "length (drawn_scores gen training g inputs) = length inputs"
    using a d by (simp add: list_all2_lengthD)
  show "length (drawn_scores gen training g inputs ! i) = length (inputs ! i)"
    using list_all2_nthD [OF a assms] d by simp
  show "set (drawn_scores gen training g inputs ! i) \<subseteq> range (gen (seed ?g))"
    using list_all2_nthD [OF a assms] d by simp
qed

lemma BLT_masking_unfold:
  "BLT_masking gen mask_token eos_token pad_token mask_rate training g inputs =
     (case BLT_rows mask_token eos_token pad_token mask_rate inputs (drawn_scores gen training g inputs) of
        Inl e \<Rightarrow> (Inl e, snd (torch_rand gen (if \<not> training then manual_seed 0 else g) inputs))
      | Inr res \<Rightarrow> (Inr res, if \<not> training then manual_seed (initial_seed g)
                               else snd (torch_rand gen g inputs)))"
  by (simp add: BLT_masking_def drawn_scores_def Let_def split: prod.splits sum.splits)

lemma BLT_rows_total:
  assumes len: "length rand = length inputs"
    and rows: "\<forall>i<length inputs. \<exists>y. BLT_row mask_token eos_token pad_token mask_rate (inputs ! i) (rand ! i) = Inr y"
  shows "BLT_rows mask_token eos_token pad_token mask_rate inputs rand =
           Inr (map (\<lambda>i. fst (projr (BLT_row mask_token eos_token pad_token mask_rate (inputs ! i) (rand ! i)))) [0..<length inputs],
                map (\<lambda>i. snd (projr (BLT_row mask_token eos_token pad_token mask_rate (inputs ! i) (rand ! i)))) [0..<length inputs])"
proof -
  let ?f = "BLT_row mask_token eos_token pad_token mask_rate"
  let ?rs = "map2 ?f inputs rand"
  have l: "length ?rs = length inputs" using len by simp
  have nth: "\<And>i. i < length inputs \<Longrightarrow> ?rs ! i = ?f (inputs ! i) (rand ! i)"
    using len by simp
  have "\<forall>r\<in>set ?rs. \<exists>y. r = Inr y"
  proof
    fix r assume "r \<in> set ?rs"
    then obtain i where "i < length ?rs" "?rs ! i = r" by (auto simp: in_set_conv_nth)
    then show "\<exists>y. r = Inr y" using rows nth l by metis
  qed
  then have c: "collect ?rs = Inr (map projr ?rs)" by (rule collect_total)
  have m: "map projr ?rs = map (\<lambda>i. projr (?f (inputs ! i) (rand ! i))) [0..<length inputs]"
    using l nth by (intro nth_equalityI) simp_all
  have "BLT_rows mask_token eos_token pad_token mask_rate inputs rand =
          Inr (map fst (map projr ?rs), map snd (map projr ?rs))"
    unfolding BLT_rows_def c by (simp only: sum.case)
  then show ?thesis unfolding m by (simp only: map_map comp_def)
qed


lemma drawn_scores_range:
  assumes rg: "\<forall>s k. 0 \<le> gen s k \<and> gen s k < 1" and i: "i < length inputs"
  shows "\<forall>r\<in>set (drawn_scores gen training g inputs ! i). 0 \<le> r \<and> r < 1"
  using drawn_scores_shape(3) [OF i, of gen training g] rg by blast

lemma BLT_row_Inr:
  "gather (sorted_rand eos_token pad_token xs rs) (mask_lens eos_token pad_token mask_rate xs) = Inr c
   \<Longrightarrow> \<exists>y. BLT_row mask_token eos_token pad_token mask_rate xs rs = Inr y"
  by (simp add: BLT_row_def Let_def)


lemma BLT_masking_gather_in_bounds_rows:
  assumes r0: "0 < mask_rate" and r1: "mask_rate \<le> 1"
    and rg: "\<forall>s k. 0 \<le> gen s k \<and> gen s k < 1"
    and w: "\<forall>row\<in>set inputs. length row \<le> 2 ^ 24"
  shows "\<forall>i<length inputs. \<exists>c.
           gather (sorted_rand eos_token pad_token (inputs ! i) (drawn_scores gen training g inputs ! i))
                  (mask_lens eos_token pad_token mask_rate (inputs ! i)) = Inr c \<and> c < 2"
proof (intro allI impI)
  fix i assume i: "i < length inputs"
  let ?rand = "drawn_scores gen training g inputs"
  have len: "length (?rand ! i) = length (inputs ! i)" using i by (rule drawn_scores_shape)
  have hi: "\<forall>r\<in>set (?rand ! i). r < 2"
    using drawn_scores_range [OF rg i, of training g] by fastforce
  have wi: "length (inputs ! i) \<le> 2 ^ 24" using w i by simp
  have r0': "0 \<le> mask_rate" using r0 by simp
  have m0: "0 \<le> mask_lens eos_token pad_token mask_rate (inputs ! i)"
    and m1: "mask_lens eos_token pad_token mask_rate (inputs ! i) \<le> int (lens eos_token pad_token (inputs ! i))"
    using mask_lens_bounds [OF r0' r1 wi] by simp_all
  show "\<exists>c. gather (sorted_rand eos_token pad_token (inputs ! i) (?rand ! i))
                  (mask_lens eos_token pad_token mask_rate (inputs ! i)) = Inr c \<and> c < 2"
    using len hi m0 m1 by (rule BLT_row_gather)
qed

lemma lens_replicate:
  "maskable eos_token pad_token x \<Longrightarrow> lens eos_token pad_token (replicate n x) = n"
  by (simp add: lens_def)

lemma sorted_rand_length:
  "length rs = length xs \<Longrightarrow> length (sorted_rand eos_token pad_token xs rs) = length xs + 1"
  by (simp add: sorted_rand_def rand_scores_def)

lemma BLT_row_raises:
  assumes "length rs = length xs"
    and "mask_lens eos_token pad_token mask_rate xs = int (length xs) + 1"
  shows "BLT_row mask_token eos_token pad_token mask_rate xs rs = Inl RuntimeError"
  using assms by (simp add: BLT_row_def gather_def sorted_rand_length)

lemma BLT_masking_single_row_raises:
  assumes m: "mask_lens eos_token pad_token mask_rate xs = int (length xs) + 1"
  shows "fst (BLT_masking gen mask_token eos_token pad_token mask_rate training g [xs])
           = Inl RuntimeError"
proof -
  let ?rand = "drawn_scores gen training g [xs]"
  have i: "0 < length [xs]" by simp
  have l1: "length ?rand = 1" using drawn_scores_shape(1) [OF i, of gen training g] by simp
  have l2: "length (?rand ! 0) = length xs" using drawn_scores_shape(2) [OF i, of gen training g] by simp
  from l1 have e: "?rand = [?rand ! 0]" by (cases ?rand) simp_all
  have "BLT_row mask_token eos_token pad_token mask_rate xs (?rand ! 0) = Inl RuntimeError"
    using l2 m by (rule BLT_row_raises)
  then have "BLT_rows mask_token eos_token pad_token mask_rate [xs] [?rand ! 0] = Inl RuntimeError"
    by (simp add: BLT_rows_def)
  then have "BLT_rows mask_token eos_token pad_token mask_rate [xs] ?rand = Inl RuntimeError"
    using e by simp
  then show ?thesis unfolding BLT_masking_unfold by simp
qed

lemma round32_16777219: "\<lceil>round32 (round32 16777219 * round32 1)\<rceil> = 16777220"
  by code_simp

section \<open>C10: the gather index is in bounds\<close>

text \<open>
  C10 (as amended). For every batch whose rows hold at most \<open>2 ^ 24 = 16777216\<close> tokens and
  every \<open>mask_rate\<close> in (0,1], with scores drawn from [0,1): in every row the target
  count \<open>mask_lens\<close>, the ceiling of the single-precision product of the number \<open>lens\<close> of
  maskable positions and the rate, lies between 0 and \<open>lens\<close>; the sorted score row has
  one entry more than the row; the index gathered is inside it; the gathered cut-off is
  not the sentinel 2, so the replacement of 2.0 by 1.0 is never taken; and the masking
  call returns a result.
\<close>

theorem BLT_masking_gather_in_bounds:
  assumes r0: "0 < mask_rate" and r1: "mask_rate \<le> 1"
    and rg: "\<forall>s k. 0 \<le> gen s k \<and> gen s k < 1"
    and w: "\<forall>row\<in>set inputs. length row \<le> 2 ^ 24"
  shows "(\<forall>i<length inputs.
            0 \<le> mask_lens eos_token pad_token mask_rate (inputs ! i) \<and>
            mask_lens eos_token pad_token mask_rate (inputs ! i)
              \<le> int (lens eos_token pad_token (inputs ! i)) \<and>
            length (sorted_rand eos_token pad_token (inputs ! i)
                      (drawn_scores gen training g inputs ! i)) = length (inputs ! i) + 1 \<and>
            mask_lens eos_token pad_token mask_rate (inputs ! i)
              < int (length (sorted_rand eos_token pad_token (inputs ! i)
                               (drawn_scores gen training g inputs ! i))) \<and>
            (\<exists>c. gather (sorted_rand eos_token pad_token (inputs ! i)
                           (drawn_scores gen training g inputs ! i))
                        (mask_lens eos_token pad_token mask_rate (inputs ! i)) = Inr c \<and> c \<noteq> 2))
         \<and> (\<exists>res g'. BLT_masking gen mask_token eos_token pad_token mask_rate training g inputs
                        = (Inr res, g'))"
proof -
  let ?rand = "drawn_scores gen training g inputs"
  have r0': "0 \<le> mask_rate" using r0 by simp
  have row: "0 \<le> mask_lens eos_token pad_token mask_rate (inputs ! i) \<and>
            mask_lens eos_token pad_token mask_rate (inputs ! i)
              \<le> int (lens eos_token pad_token (inputs ! i)) \<and>
            length (sorted_rand eos_token pad_token (inputs ! i) (?rand ! i)) = length (inputs ! i) + 1 \<and>
            mask_lens eos_token pad_token mask_rate (inputs ! i)
              < int (length (sorted_rand eos_token pad_token (inputs ! i) (?rand ! i))) \<and>
            (\<exists>c. gather (sorted_rand eos_token pad_token (inputs ! i) (?rand ! i))
                        (mask_lens eos_token pad_token mask_rate (inputs ! i)) = Inr c \<and> c \<noteq> 2)"
    if i: "i < length inputs" for i
  proof -
    have len: "length (?rand ! i) = length (inputs ! i)" using i by (rule drawn_scores_shape)
    have hi: "\<forall>r\<in>set (?rand ! i). r < 2"
      using drawn_scores_range [OF rg i, of training g] by fastforce
    have wi: "length (inputs ! i) \<le> 2 ^ 24" using w i by simp
    have m0: "0 \<le> mask_lens eos_token pad_token mask_rate (inputs ! i)"
      and m1: "mask_lens eos_token pad_token mask_rate (inputs ! i) \<le> int (lens eos_token pad_token (inputs ! i))"
      using mask_lens_bounds [OF r0' r1 wi] by simp_all
    have l: "length (sorted_rand eos_token pad_token (inputs ! i) (?rand ! i)) = length (inputs ! i) + 1"
      using len by (rule sorted_rand_length)
    from BLT_row_gather [OF len hi m0 m1] show ?thesis using m0 m1 l by fastforce
  qed
  have "\<forall>i<length inputs. \<exists>y. BLT_row mask_token eos_token pad_token mask_rate (inputs ! i) (?rand ! i) = Inr y"
    using row BLT_row_Inr by blast
  moreover have "length ?rand = length inputs"
  proof (cases inputs)
    case Nil
    then show ?thesis by (simp add: drawn_scores_def torch_rand_def)
  next
    case (Cons a list)
    then have "0 < length inputs" by simp
    then show ?thesis by (rule drawn_scores_shape)
  qed
  ultimately have "\<exists>res. BLT_rows mask_token eos_token pad_token mask_rate inputs ?rand = Inr res"
    using BLT_rows_total by blast
  then have "\<exists>res g'. BLT_masking gen mask_token eos_token pad_token mask_rate training g inputs = (Inr res, g')"
    unfolding BLT_masking_unfold by auto
  with row show ?thesis by blast
qed

theorem BLT_masking_gather_in_bounds_witness:
  "(0::rat) < 1 / 2 \<and> (1 / 2 :: rat) \<le> 1 \<and>
   (\<forall>s k. 0 \<le> (1 :: rat) / (of_nat k + 2) \<and> (1 :: rat) / (of_nat k + 2) < 1) \<and>
   length [5 :: token, 1, 2, 100, 101] \<le> 2 ^ 24 \<and>
   (\<exists>res g'. BLT_masking (\<lambda>s k. 1 / (of_nat k + 2)) 102 100 101 (1 / 2) True
                 \<lparr>seed = 7, drawn = 0\<rparr> [[5, 1, 2, 100, 101]] = (Inr res, g'))"
proof -
  have h: "\<forall>s k. 0 \<le> (1 :: rat) / (of_nat k + 2) \<and> (1 :: rat) / (of_nat k + 2) < 1"
    by (simp add: field_simps)
  have w: "\<forall>row\<in>set [[5 :: token, 1, 2, 100, 101]]. length row \<le> 2 ^ 24" by simp
  show ?thesis
    using BLT_masking_gather_in_bounds [of "1 / 2" "\<lambda>s k. 1 / (of_nat k + 2)"
        "[[5, 1, 2, 100, 101]]" 100 101 True "\<lparr>seed = 7, drawn = 0\<rparr>" 102] h w
    by simp
qed

text \<open>
  The claim as stated (every batch) fails on a row of 16777219 maskable tokens with rate
  1. Single precision has no value 16777219: the count is rounded to 16777220, the
  target count exceeds the number of maskable positions, the index gathered is one past
  the last index of the sorted row of 16777220 entries, and the call raises.
\<close>

theorem BLT_masking_gather_counterexample:
  "lens 100 101 (replicate 16777219 5) = 16777219
   \<and> mask_lens 100 101 1 (replicate 16777219 5) = 16777220
   \<and> length (sorted_rand 100 101 (replicate 16777219 5)
               (drawn_scores example_stream True \<lparr>seed = 7, drawn = 0\<rparr>
                  [replicate 16777219 (5 :: token)] ! 0)) = 16777220
   \<and> fst (BLT_masking example_stream 102 100 101 1 True \<lparr>seed = 7, drawn = 0\<rparr>
            [replicate 16777219 5]) = Inl RuntimeError"
proof -
  let ?xs = "replicate 16777219 (5 :: token)"
  have mk: "maskable 100 101 5" by (simp add: maskable_def)
  have l: "lens 100 101 ?xs = 16777219" using mk by (rule lens_replicate)
  have m: "mask_lens 100 101 1 ?xs = 16777220"
    unfolding mask_lens_def l using round32_16777219 by simp
  have i: "0 < length [?xs]" by simp
  have "length (drawn_scores example_stream True \<lparr>seed = 7, drawn = 0\<rparr> [?xs] ! 0) = length ?xs"
    using drawn_scores_shape(2) [OF i, of example_stream True "\<lparr>seed = 7, drawn = 0\<rparr>"] by simp
  then have s: "length (sorted_rand 100 101 ?xs
                  (drawn_scores example_stream True \<lparr>seed = 7, drawn = 0\<rparr> [?xs] ! 0)) = 16777220"
    by (simp add: sorted_rand_length)
  have "mask_lens 100 101 1 ?xs = int (length ?xs) + 1" using m by simp
  then have "fst (BLT_masking example_stream 102 100 101 1 True \<lparr>seed = 7, drawn = 0\<rparr> [?xs])
               = Inl RuntimeError"
    by (rule BLT_masking_single_row_raises)
  with l m s show ?thesis by simp
qed


section \<open>C2: the number of masked positions\<close>

text \<open>
  C2 (as amended). For every batch whose rows hold at most \<open>2 ^ 24\<close> tokens and every
  \<open>mask_rate\<close> in (0,1], with scores drawn from [0,1), the masking call returns, and in
  every row whose drawn scores are pairwise distinct the number of masked positions is
  exactly the target count: the ceiling of the product \<open>count * mask_rate\<close> as torch
  computes it in single precision, where \<open>count\<close> is the number of maskable positions.
  It is not one more: the appended \<open>-1\<close> occupies index 0 of the sorted row, so the index
  \<open>mask_lens\<close> holds the \<open>mask_lens\<close>-th smallest score. The number masked never exceeds
  \<open>count\<close>, and a row without maskable positions gets no mask.
\<close>

theorem BLT_masking_count:
  assumes r0: "0 < mask_rate" and r1: "mask_rate \<le> 1"
    and rg: "\<forall>s k. 0 \<le> gen s k \<and> gen s k < 1"
    and w: "\<forall>row\<in>set inputs. length row \<le> 2 ^ 24"
  shows "\<exists>masked ind g'.
           BLT_masking gen mask_token eos_token pad_token mask_rate training g inputs
             = (Inr (masked, ind), g') \<and>
           length ind = length inputs \<and>
           (\<forall>i<length inputs.
              (distinct (drawn_scores gen training g inputs ! i) \<longrightarrow>
                 int (length (filter id (ind ! i)))
                   = \<lceil>round32 (round32 (of_nat (lens eos_token pad_token (inputs ! i)))
                                * round32 mask_rate)\<rceil> \<and>
                 length (filter id (ind ! i)) \<le> lens eos_token pad_token (inputs ! i)) \<and>
              (lens eos_token pad_token (inputs ! i) = 0 \<longrightarrow> length (filter id (ind ! i)) = 0))"
proof -
  let ?rand = "drawn_scores gen training g inputs"
  let ?f = "BLT_row mask_token eos_token pad_token mask_rate"
  let ?ind = "map (\<lambda>i. snd (projr (?f (inputs ! i) (?rand ! i)))) [0..<length inputs]"
  let ?masked = "map (\<lambda>i. fst (projr (?f (inputs ! i) (?rand ! i)))) [0..<length inputs]"
  have r0': "0 \<le> mask_rate" using r0 by simp
  have lrand: "length ?rand = length inputs"
  proof (cases inputs)
    case Nil
    then show ?thesis by (simp add: drawn_scores_def torch_rand_def)
  next
    case (Cons a list)
    then have "0 < length inputs" by simp
    then show ?thesis by (rule drawn_scores_shape)
  qed
  have bnd: "mask_lens eos_token pad_token mask_rate (inputs ! i) \<le> int (lens eos_token pad_token (inputs ! i))"
    and bnd0: "0 \<le> mask_lens eos_token pad_token mask_rate (inputs ! i)"
    if i: "i < length inputs" for i
  proof -
    have wi: "length (inputs ! i) \<le> 2 ^ 24" using w i by simp
    show "mask_lens eos_token pad_token mask_rate (inputs ! i) \<le> int (lens eos_token pad_token (inputs ! i))"
      and "0 \<le> mask_lens eos_token pad_token mask_rate (inputs ! i)"
      using mask_lens_bounds [OF r0' r1 wi] by simp_all
  qed
  have row: "\<exists>m d. ?f (inputs ! i) (?rand ! i) = Inr (m, d) \<and>
               int (length (filter id d)) = mask_lens eos_token pad_token mask_rate (inputs ! i)"
    if i: "i < length inputs"
      and d: "distinct (?rand ! i) \<or> lens eos_token pad_token (inputs ! i) = 0" for i
  proof -
    have len: "length (?rand ! i) = length (inputs ! i)" using i by (rule drawn_scores_shape)
    have rg': "\<forall>r\<in>set (?rand ! i). 0 \<le> r \<and> r < 1" using rg i by (rule drawn_scores_range)
    show ?thesis using len rg' d bnd0 [OF i] bnd [OF i] by (rule BLT_row_count)
  qed
  have tot: "\<forall>i<length inputs. \<exists>y. ?f (inputs ! i) (?rand ! i) = Inr y"
    using BLT_masking_gather_in_bounds_rows [OF r0 r1 rg w] BLT_row_Inr by blast
  have rows: "BLT_rows mask_token eos_token pad_token mask_rate inputs ?rand = Inr (?masked, ?ind)"
    using lrand tot by (rule BLT_rows_total)
  have res: "\<exists>g'. BLT_masking gen mask_token eos_token pad_token mask_rate training g inputs
               = (Inr (?masked, ?ind), g')"
    unfolding BLT_masking_unfold rows by simp
  have cnt: "int (length (filter id (?ind ! i))) = mask_lens eos_token pad_token mask_rate (inputs ! i)"
    if i: "i < length inputs"
      and d: "distinct (?rand ! i) \<or> lens eos_token pad_token (inputs ! i) = 0" for i
    using row [OF i d] i by auto
  have le: "length (filter id (?ind ! i)) \<le> lens eos_token pad_token (inputs ! i)"
    if i: "i < length inputs" and d: "distinct (?rand ! i)" for i
  proof -
    have "int (length (filter id (?ind ! i))) = mask_lens eos_token pad_token mask_rate (inputs ! i)"
      using i d by (intro cnt) simp_all
    with bnd [OF i] show ?thesis by simp
  qed
  have z: "length (filter id (?ind ! i)) = 0"
    if i: "i < length inputs" and d: "lens eos_token pad_token (inputs ! i) = 0" for i
  proof -
    have "int (length (filter id (?ind ! i))) = mask_lens eos_token pad_token mask_rate (inputs ! i)"
      using i d by (intro cnt) simp_all
    then show ?thesis using d by (simp add: mask_lens_zero)
  qed
  have c: "int (length (filter id (?ind ! i)))
             = \<lceil>round32 (round32 (of_nat (lens eos_token pad_token (inputs ! i))) * round32 mask_rate)\<rceil>"
    if i: "i < length inputs" and d: "distinct (?rand ! i)" for i
    using cnt [OF i] d by (simp add: mask_lens_def)
  have "length ?ind = length inputs" by simp
  with res c le z show ?thesis by blast
qed

theorem BLT_masking_count_witness:
  "(0 :: rat) < 1 / 2 \<and> (1 / 2 :: rat) \<le> 1 \<and>
   (\<forall>s k. 0 \<le> example_stream s k \<and> example_stream s k < 1) \<and>
   length [5 :: token, 1, 100] \<le> 2 ^ 24 \<and>
   distinct (drawn_scores example_stream True \<lparr>seed = 7, drawn = 0\<rparr> [[5 :: token, 1, 100]] ! 0) \<and>
   (\<exists>masked ind g'.
      BLT_masking example_stream 102 100 101 (1 / 2) True \<lparr>seed = 7, drawn = 0\<rparr> [[5, 1, 100]]
        = (Inr (masked, ind), g') \<and>
      int (length (filter id (ind ! 0)))
        = \<lceil>round32 (round32 (of_nat (lens 100 101 [5, 1, 100])) * round32 (1 / 2))\<rceil>)"
proof -
  have h: "\<forall>s k. 0 \<le> example_stream s k \<and> example_stream s k < 1"
    by (simp add: example_stream_def field_simps)
  have d: "distinct (drawn_scores example_stream True \<lparr>seed = 7, drawn = 0\<rparr> [[5 :: token, 1, 100]] ! 0)"
    by code_simp
  have w: "\<forall>row\<in>set [[5 :: token, 1, 100]]. length row \<le> 2 ^ 24" by simp
  show ?thesis
    using BLT_masking_count [of "1 / 2" example_stream "[[5, 1, 100]]" 102 100 101 True
        "\<lparr>seed = 7, drawn = 0\<rparr>"] h d w
    by fastforce
qed

text \<open>
  The claim as stated (one position more than the ceiling target) fails on the
  sequence of the specification's own example: 7 maskable positions, rate 1/2,
  distinct scores, target 4, and 4 positions masked, not 5.
\<close>

theorem BLT_masking_off_by_one_counterexample:
  "BLT_masking example_stream 102 100 101 (1 / 2) True \<lparr>seed = 7, drawn = 0\<rparr>
           [[5, 1, 2, 3, 6, 7, 8, 100, 101, 101]]
     = (Inr ([[5, 1, 2, 102, 102, 102, 102, 100, 101, 101]],
             [[False, False, False, True, True, True, True, False, False, False]]),
        \<lparr>seed = 7, drawn = 10\<rparr>)
   \<and> distinct (drawn_scores example_stream True \<lparr>seed = 7, drawn = 0\<rparr>
                 [[5 :: token, 1, 2, 3, 6, 7, 8, 100, 101, 101]] ! 0)
   \<and> lens 100 101 [5, 1, 2, 3, 6, 7, 8, 100, 101, 101] = 7
   \<and> \<lceil>of_nat (lens 100 101 [5, 1, 2, 3, 6, 7, 8, 100, 101, 101]) * (1 / 2 :: rat)\<rceil> = 4
   \<and> int (length (filter id [False, False, False, True, True, True, True, False, False, False]))
       \<noteq> \<lceil>of_nat (lens 100 101 [5, 1, 2, 3, 6, 7, 8, 100, 101, 101]) * (1 / 2 :: rat)\<rceil> + 1"
  by code_simp

text \<open>
  The target count is the ceiling of the single-precision product, which is not always
  the ceiling of the exact product: with 25 maskable positions and rate 0.6 the rate is
  rounded to a single-precision value just above 3/5, the product to one just above 15,
  and the target count is 16, where the exact product gives 15. With 100 positions and
  rate 0.15 it is likewise 16 and 15.
\<close>

lemma mask_lens_single_precision:
  "mask_lens 100 101 (3 / 5) (replicate 25 5) = 16
   \<and> \<lceil>of_nat (lens 100 101 (replicate 25 5)) * (3 / 5 :: rat)\<rceil> = 15
   \<and> mask_lens 100 101 (15 / 100) (replicate 100 5) = 16
   \<and> \<lceil>of_nat (lens 100 101 (replicate 100 5)) * (15 / 100 :: rat)\<rceil> = 15"
  by code_simp

section \<open>C9: the generator around a non-training call\<close>

text \<open>
  C9. The claim: a non-training call saves the state of the global generator, forces a
  fixed seed, and restores the saved state on every exit path, so that later draws are
  what they would have been without the call. The source sets out to do this (its
  comments read, in translation, "set a fixed random seed" and "restore the random
  seed") and misses:
  what it saves is \<open>torch.initial_seed()\<close>, the seed and not the state, what it calls at
  the end is \<open>torch.manual_seed\<close> on that seed, which restarts the seed's stream, and no
  guard runs that last line when \<open>gather\<close> raises. The run below is a non-training
  call on the batch \<open>[[5, 1, 100]]\<close> with rate 1/2 by a caller whose generator, seeded
  with 7, has already drawn 5 values. The call returns the mask of the stream of seed 0
  and leaves the generator at position 0 of the stream of seed 7, not at position 5: the
  next value drawn is the first of that stream (1/2 in the example stream), not the
  sixth (1/7). With a rate of 3 the call raises and leaves the generator seeded with 0.
\<close>

theorem BLT_masking_eval_rng_not_restored:
  "BLT_masking example_stream 102 100 101 (1 / 2) False \<lparr>seed = 7, drawn = 5\<rparr> [[5, 1, 100]]
     = (Inr ([[5, 102, 100]], [[False, True, False]]), \<lparr>seed = 7, drawn = 0\<rparr>)
   \<and> \<lparr>seed = 7, drawn = 0\<rparr> \<noteq> \<lparr>seed = 7, drawn = 5 :: nat\<rparr>
   \<and> fst (torch_rand example_stream \<lparr>seed = 7, drawn = 0\<rparr> [[0 :: token]]) = [[1 / 2]]
   \<and> fst (torch_rand example_stream \<lparr>seed = 7, drawn = 5\<rparr> [[0 :: token]]) = [[1 / 7]]
   \<and> BLT_masking example_stream 102 100 101 3 False \<lparr>seed = 7, drawn = 5\<rparr> [[5, 1, 100]]
     = (Inl RuntimeError, \<lparr>seed = 0, drawn = 3\<rparr>)"
  by code_simp

section \<open>C4: the learning-rate multiplier\<close>

text \<open>
  C4 (as amended). The multiplier computed in \<open>run_epoch_\<close> is the piecewise function of
  the specification (the lower clamp of \<open>progress\<close> at 0 never acts, the quotient being
  non-negative in that branch). The multiplier at \<open>warmup_iters\<close> is 1 and it is at least
  0.1 at every iteration after \<open>warmup_iters\<close>. The multiplier at 0 is 0 when
  \<open>warmup_iters\<close> is positive, and the multiplier at \<open>final_iters\<close> is 0.1 when
  \<open>warmup_iters < final_iters\<close>.
\<close>

theorem lr_mult_piecewise:
  "lr_mult cfg iteration = spec_multiplier (warmup_iters cfg) (final_iters cfg) iteration
   \<and> (0 < warmup_iters cfg \<longrightarrow> lr_mult cfg 0 = 0)
   \<and> lr_mult cfg (warmup_iters cfg) = 1
   \<and> (warmup_iters cfg < final_iters cfg \<longrightarrow> lr_mult cfg (final_iters cfg) = 1 / 10)
   \<and> (warmup_iters cfg < iteration \<longrightarrow> 1 / 10 \<le> lr_mult cfg iteration)"
proof -
  have a: "lr_mult cfg iteration = spec_multiplier (warmup_iters cfg) (final_iters cfg) iteration"
  proof (cases "iteration < warmup_iters cfg")
    case True
    then show ?thesis by (simp add: lr_mult_def spec_multiplier_def)
  next
    case False
    then have "0 \<le> real_of_int (iteration - warmup_iters cfg)
                 / real_of_int (max 1 (final_iters cfg - warmup_iters cfg))"
      by (intro divide_nonneg_nonneg) simp_all
    then have "max 0 (min 1 (real_of_int (iteration - warmup_iters cfg)
                 / real_of_int (max 1 (final_iters cfg - warmup_iters cfg))))
             = min 1 (real_of_int (iteration - warmup_iters cfg)
                 / real_of_int (max 1 (final_iters cfg - warmup_iters cfg)))"
      by simp
    with False show ?thesis by (simp add: lr_mult_def spec_multiplier_def Let_def)
  qed
  have b: "0 < warmup_iters cfg \<longrightarrow> lr_mult cfg 0 = 0" by (simp add: lr_mult_def)
  have c: "lr_mult cfg (warmup_iters cfg) = 1" by (simp add: lr_mult_def)
  have d: "warmup_iters cfg < final_iters cfg \<longrightarrow> lr_mult cfg (final_iters cfg) = 1 / 10"
  proof
    assume h: "warmup_iters cfg < final_iters cfg"
    then have "max 1 (final_iters cfg - warmup_iters cfg) = final_iters cfg - warmup_iters cfg"
      by simp
    moreover have "real_of_int (final_iters cfg - warmup_iters cfg)
                    / real_of_int (final_iters cfg - warmup_iters cfg) = 1"
      using h by simp
    ultimately show "lr_mult cfg (final_iters cfg) = 1 / 10"
      using h by (simp add: lr_mult_def Let_def)
  qed
  have e: "warmup_iters cfg < iteration \<longrightarrow> 1 / 10 \<le> lr_mult cfg iteration"
    by (simp add: lr_mult_def Let_def)
  from a b c d e show ?thesis by blast
qed

theorem lr_mult_piecewise_witness:
  "(0 :: int) < warmup_iters default_config \<and> warmup_iters default_config < final_iters default_config
   \<and> warmup_iters default_config < 30000
   \<and> lr_mult default_config 0 = 0 \<and> lr_mult default_config 5000 = 1
   \<and> lr_mult default_config 25000 = 1 / 10 \<and> 1 / 10 \<le> lr_mult default_config 30000"
proof -
  have w: "warmup_iters default_config = 5000" "final_iters default_config = 25000"
    by (simp_all add: default_config_def)
  show ?thesis
    using lr_mult_piecewise [of default_config 30000] by (simp add: w)
qed


text \<open>
  Without these two conditions on the configuration the claim fails: with
  \<open>warmup_iters = 0\<close> the multiplier at 0 is 1, and with \<open>warmup_iters = final_iters\<close> the
  multiplier at \<open>final_iters\<close> is 1.
\<close>

theorem lr_mult_counterexample:
  "lr_mult (default_config\<lparr>warmup_iters := 0\<rparr>) 0 = 1
   \<and> lr_mult (default_config\<lparr>warmup_iters := 5, final_iters := 5\<rparr>) 5 = 1"
  by (simp add: lr_mult_def default_config_def)


section \<open>C5: the mask rate of an evaluation pass\<close>

text \<open>
  C5 (as amended). In an evaluation pass the mask rate at batch index \<open>b\<close> of \<open>n\<close> batches is
  \<open>0.15 + (0.7 - 0.15) * min(b / n, 1)\<close> with the constants written in the code, whatever
  \<open>start_mask_rate\<close> and \<open>end_mask_rate\<close> the configuration holds; it is 0.15 at the first
  batch and non-decreasing in the batch index.
\<close>

theorem eval_mask_rate_fixed_ramp:
  "eval_mask_rate cfg b n = 15 / 100 + (7 / 10 - 15 / 100) * min (of_nat b / of_nat n) 1
   \<and> eval_mask_rate cfg 0 n = 15 / 100
   \<and> (b \<le> b' \<and> b' < n \<longrightarrow> eval_mask_rate cfg b n \<le> eval_mask_rate cfg b' n)"
proof -
  have mono: "eval_mask_rate cfg b n \<le> eval_mask_rate cfg b' n" if le: "b \<le> b'"
  proof -
    have "(of_nat b :: rat) / of_nat n \<le> of_nat b' / of_nat n"
      using le by (simp add: divide_right_mono)
    then have "min ((of_nat b :: rat) / of_nat n) 1 \<le> min (of_nat b' / of_nat n) 1"
      by (meson min.mono order_refl)
    then have "(7 / 10 - 15 / 100 :: rat) * min (of_nat b / of_nat n) 1
                 \<le> (7 / 10 - 15 / 100) * min (of_nat b' / of_nat n) 1"
      by (intro mult_left_mono) simp_all
    then show ?thesis unfolding eval_mask_rate_def by (rule add_left_mono)
  qed
  have "eval_mask_rate cfg 0 n = 15 / 100" by (simp add: eval_mask_rate_def)
  moreover have "eval_mask_rate cfg b n = 15 / 100 + (7 / 10 - 15 / 100) * min (of_nat b / of_nat n) 1"
    by (simp only: eval_mask_rate_def)
  ultimately show ?thesis using mono by blast
qed

theorem eval_mask_rate_fixed_ramp_witness:
  "(1 :: nat) \<le> 3 \<and> (3 :: nat) < 4
   \<and> eval_mask_rate default_config 1 4 \<le> eval_mask_rate default_config 3 4
   \<and> eval_mask_rate default_config 0 4 = 15 / 100"
  using eval_mask_rate_fixed_ramp [of default_config 1 4 3] by simp


text \<open>
  With \<open>start_mask_rate = 0.2\<close> and \<open>end_mask_rate = 0.5\<close> the rate of the first of four
  batches is 0.15, where the claim's formula gives 0.2; the last batch (index 3) gets
  9/16.
\<close>

theorem eval_mask_rate_counterexample:
  "eval_mask_rate (default_config\<lparr>start_mask_rate := 1 / 5, end_mask_rate := 1 / 2\<rparr>) 0 4
     = 3 / 20
   \<and> start_mask_rate (default_config\<lparr>start_mask_rate := 1 / 5, end_mask_rate := 1 / 2\<rparr>)
       + (end_mask_rate (default_config\<lparr>start_mask_rate := 1 / 5, end_mask_rate := 1 / 2\<rparr>)
          - start_mask_rate (default_config\<lparr>start_mask_rate := 1 / 5, end_mask_rate := 1 / 2\<rparr>))
         * min (of_nat 0 / of_nat 4) 1 = 1 / 5
   \<and> eval_mask_rate (default_config\<lparr>start_mask_rate := 1 / 5, end_mask_rate := 1 / 2\<rparr>) 3 4
     = 9 / 16"
  by (simp add: eval_mask_rate_def default_config_def)

section \<open>Facts about \<open>test_masking\<close>\<close>

lemma nonzero_eq_count: "length (nonzero_eq eos_token seq) = count_list seq eos_token"
proof -
  have "filter (\<lambda>x. x = eos_token) (map ((!) seq) [0..<length seq])
          = map ((!) seq) (filter (\<lambda>k. seq ! k = eos_token) [0..<length seq])"
    by (simp add: filter_map comp_def)
  then have "length (filter (\<lambda>x. x = eos_token) seq) = length (nonzero_eq eos_token seq)"
    by (simp add: map_nth nonzero_eq_def)
  moreover have "count_list seq eos_token = length (filter (\<lambda>x. x = eos_token) seq)"
    by (induction seq) auto
  ultimately show ?thesis by simp
qed

lemma first_occurrence:
  "x \<in> set xs \<Longrightarrow> length (takeWhile (\<lambda>y. y \<noteq> x) xs) < length xs \<and>
                   xs ! length (takeWhile (\<lambda>y. y \<noteq> x) xs) = x"
  by (induction xs) auto

lemma eos_index_valid_length:
  assumes "count_list seq eos_token \<le> 1"
  shows "eos_index eos_token seq = Inr (valid_length eos_token seq)"
proof (cases "eos_token \<in> set seq")
  case False
  then have "takeWhile (\<lambda>x. x \<noteq> eos_token) seq = seq" by (auto simp: takeWhile_eq_all_conv)
  then have "length (takeWhile (\<lambda>x. x \<noteq> eos_token) seq) = length seq" by (rule arg_cong)
  with False show ?thesis by (simp add: eos_index_def valid_length_def)
next
  case True
  let ?j = "length (takeWhile (\<lambda>x. x \<noteq> eos_token) seq)"
  have j: "?j < length seq" and sj: "seq ! ?j = eos_token"
    using first_occurrence [OF True] by simp_all
  have mem: "?j \<in> set (nonzero_eq eos_token seq)" using j sj by (simp add: nonzero_eq_def)
  have "length (nonzero_eq eos_token seq) \<le> 1" using assms by (simp add: nonzero_eq_count)
  then obtain k where "nonzero_eq eos_token seq = [k]"
    using mem by (cases "nonzero_eq eos_token seq") auto
  with mem have "nonzero_eq eos_token seq = [?j]" by simp
  with True show ?thesis by (simp add: eos_index_def valid_length_def)
qed

lemma fold_update_length: "length (fold (\<lambda>k r. r[k := v]) idx r) = length r"
  by (induction idx arbitrary: r) auto

lemma fold_update_nth:
  "j < length r \<Longrightarrow> fold (\<lambda>k r. r[k := v]) idx r ! j = (if j \<in> set idx then v else r ! j)"
proof (induction idx arbitrary: r)
  case Nil
  then show ?case by simp
next
  case (Cons a idx)
  then show ?case by (auto simp: nth_list_update)
qed

lemma mask_indices_mem:
  "j \<in> set (mask_indices i seq_len) \<longleftrightarrow> j < seq_len \<and> (j mod 7 = 1 \<or> j mod 7 = 2)"
  by (auto simp: mask_indices_def)

lemma test_row_pattern:
  assumes "count_list seq eos_token \<le> 1"
  shows "\<exists>masked ind. test_row mask_token eos_token pad_token max_len i seq = Inr (masked, ind) \<and>
           length ind = max_len \<and>
           (\<forall>j<max_len. ind ! j \<longleftrightarrow> j < valid_length eos_token seq \<and> (j mod 7 = 1 \<or> j mod 7 = 2))"
  using eos_index_valid_length [OF assms]
  by (simp add: test_row_def Let_def fold_update_length fold_update_nth mask_indices_mem)

lemma test_masking_rows:
  assumes ne: "inputs \<noteq> []"
    and rows: "\<forall>i<length inputs. \<exists>y.
                 test_row mask_token eos_token pad_token (foldr max (map length inputs) 0) i (inputs ! i) = Inr y"
  shows "test_masking mask_token eos_token pad_token inputs =
           Inr (map (\<lambda>i. fst (projr (test_row mask_token eos_token pad_token
                                       (foldr max (map length inputs) 0) i (inputs ! i)))) [0..<length inputs],
                map (\<lambda>i. snd (projr (test_row mask_token eos_token pad_token
                                       (foldr max (map length inputs) 0) i (inputs ! i)))) [0..<length inputs])"
proof -
  let ?m = "foldr max (map length inputs) 0"
  let ?f = "\<lambda>(i, seq). test_row mask_token eos_token pad_token ?m i seq"
  let ?rs = "map ?f (enumerate 0 inputs)"
  have l: "length ?rs = length inputs" by simp
  have nth: "\<And>i. i < length inputs \<Longrightarrow> ?rs ! i = test_row mask_token eos_token pad_token ?m i (inputs ! i)"
    by (simp add: nth_enumerate_eq)
  have "\<forall>r\<in>set ?rs. \<exists>y. r = Inr y"
  proof
    fix r assume "r \<in> set ?rs"
    then obtain i where "i < length ?rs" "?rs ! i = r" by (auto simp: in_set_conv_nth)
    then show "\<exists>y. r = Inr y" using rows nth l by metis
  qed
  then have c: "collect ?rs = Inr (map projr ?rs)" by (rule collect_total)
  have m: "map projr ?rs = map (\<lambda>i. projr (test_row mask_token eos_token pad_token ?m i (inputs ! i))) [0..<length inputs]"
    using l nth by (intro nth_equalityI) simp_all
  have "test_masking mask_token eos_token pad_token inputs =
          Inr (map fst (map projr ?rs), map snd (map projr ?rs))"
    using ne unfolding test_masking_def Let_def c by (simp only: sum.case if_False)
  then show ?thesis unfolding m by (simp only: map_map comp_def)
qed


section \<open>C8: the positions masked by \<open>test_masking\<close>\<close>

text \<open>
  C8 (as amended). For every non-empty batch whose sequences each hold \<open>eos_token\<close> at most
  once, \<open>test_masking\<close> returns, and in every row, of even or odd index alike, it masks
  exactly the positions whose index is strictly below the valid length (the index of the
  \<open>eos_token\<close>, or the full length when there is none) and whose index modulo 7 is 1 or
  2. The function has no mask-rate parameter.
\<close>

theorem test_masking_pattern:
  assumes ne: "inputs \<noteq> []"
    and one: "\<forall>seq\<in>set inputs. count_list seq eos_token \<le> 1"
  shows "\<exists>masked ind.
           test_masking mask_token eos_token pad_token inputs = Inr (masked, ind) \<and>
           length ind = length inputs \<and>
           (\<forall>i<length inputs.
              length (ind ! i) = foldr max (map length inputs) 0 \<and>
              (\<forall>j<foldr max (map length inputs) 0.
                 ind ! i ! j \<longleftrightarrow>
                   j < valid_length eos_token (inputs ! i) \<and> (j mod 7 = 1 \<or> j mod 7 = 2)))"
proof -
  let ?m = "foldr max (map length inputs) 0"
  let ?r = "\<lambda>i. test_row mask_token eos_token pad_token ?m i (inputs ! i)"
  have row: "\<exists>masked ind. ?r i = Inr (masked, ind) \<and> length ind = ?m \<and>
           (\<forall>j<?m. ind ! j \<longleftrightarrow> j < valid_length eos_token (inputs ! i) \<and> (j mod 7 = 1 \<or> j mod 7 = 2))"
    if "i < length inputs" for i
    using one that by (intro test_row_pattern) simp
  then have "\<forall>i<length inputs. \<exists>y. ?r i = Inr y" by blast
  with ne have t: "test_masking mask_token eos_token pad_token inputs =
           Inr (map (\<lambda>i. fst (projr (?r i))) [0..<length inputs],
                map (\<lambda>i. snd (projr (?r i))) [0..<length inputs])"
    by (rule test_masking_rows)
  have "length (snd (projr (?r i))) = ?m \<and>
        (\<forall>j<?m. snd (projr (?r i)) ! j \<longleftrightarrow>
            j < valid_length eos_token (inputs ! i) \<and> (j mod 7 = 1 \<or> j mod 7 = 2))"
    if "i < length inputs" for i
    using row [OF that] by auto
  then show ?thesis using t by simp
qed

theorem test_masking_pattern_witness:
  "[[5, 1, 2, 3, 6, 7, 8, 9, 1, 100, 101], [5, 1, 2, 3, 6, 7, 8, 9, 1, 2, 3 :: token]] \<noteq> []
   \<and> count_list [5, 1, 2, 3, 6, 7, 8, 9, 1, 100, 101 :: token] 100 \<le> 1
   \<and> count_list [5, 1, 2, 3, 6, 7, 8, 9, 1, 2, 3 :: token] 100 \<le> 1
   \<and> test_masking 102 100 101 [[5, 1, 2, 3, 6, 7, 8, 9, 1, 100, 101], [5, 1, 2, 3, 6, 7, 8, 9, 1, 2, 3]]
     = Inr ([[5, 102, 102, 3, 6, 7, 8, 9, 102, 100, 101], [5, 102, 102, 3, 6, 7, 8, 9, 102, 102, 3]],
            [[False, True, True, False, False, False, False, False, True, False, False],
             [False, True, True, False, False, False, False, False, True, True, False]])"
proof -
  have e: "test_masking 102 100 101 [[5, 1, 2, 3, 6, 7, 8, 9, 1, 100, 101], [5, 1, 2, 3, 6, 7, 8, 9, 1, 2, 3]]
     = Inr ([[5, 102, 102, 3, 6, 7, 8, 9, 102, 100, 101], [5, 102, 102, 3, 6, 7, 8, 9, 102, 102, 3]],
            [[False, True, True, False, False, False, False, False, True, False, False],
             [False, True, True, False, False, False, False, False, True, True, False]])"
    by code_simp
  show ?thesis
    using test_masking_pattern [of "[[5, 1, 2, 3, 6, 7, 8, 9, 1, 100, 101], [5, 1, 2, 3, 6, 7, 8, 9, 1, 2, 3]]"
        100 102 101] e
    by simp
qed


text \<open>
  On a sequence that holds \<open>eos_token\<close> twice the conversion of the index tensor to a
  scalar raises, and on an empty batch \<open>max\<close> raises: the claim as stated, for every
  batch, does not hold.
\<close>

theorem test_masking_counterexample:
  "test_masking 102 100 101 [[5, 100, 100, 101]] = Inl RuntimeError
   \<and> test_masking 102 100 101 [] = Inl ValueError"
  by code_simp

section \<open>Facts about the results of the two masking functions\<close>

lemma masking_ok_iff:
  "masking_ok mask_token eos_token pad_token inputs masked ind \<longleftrightarrow>
     length masked = length inputs \<and> length ind = length inputs \<and>
     (\<forall>i<length inputs.
        length (masked ! i) = length (inputs ! i) \<and> length (ind ! i) = length (inputs ! i) \<and>
        (\<forall>j<length (inputs ! i).
          (ind ! i ! j \<longrightarrow> inputs ! i ! j \<noteq> pad_token \<and> inputs ! i ! j \<noteq> eos_token) \<and>
          (masked ! i ! j = mask_token \<longleftrightarrow> ind ! i ! j) \<and>
          (\<not> ind ! i ! j \<longrightarrow> masked ! i ! j = inputs ! i ! j)))"
  unfolding masking_ok_def list_all_iff by (simp add: Ball_def)

lemma BLT_row_ok:
  assumes r: "BLT_row mask_token eos_token pad_token mask_rate xs rs = Inr (m, d)"
    and len: "length rs = length xs" and nm: "mask_token \<notin> set xs"
  shows "length m = length xs \<and> length d = length xs \<and>
         (\<forall>j<length xs.
            (d ! j \<longrightarrow> xs ! j \<noteq> pad_token \<and> xs ! j \<noteq> eos_token) \<and>
            (m ! j = mask_token \<longleftrightarrow> d ! j) \<and>
            (\<not> d ! j \<longrightarrow> m ! j = xs ! j))"
proof -
  obtain c where d: "d = map2 (\<lambda>b r. b \<and> r \<le> c) (map (maskable eos_token pad_token) xs)
                         (rand_scores eos_token pad_token xs rs)"
    and m: "m = map2 (\<lambda>b x. if b then mask_token else x) d xs"
    using r by (auto simp: BLT_row_def Let_def split: sum.splits)
  have lr: "length (rand_scores eos_token pad_token xs rs) = length xs"
    using len by (simp add: rand_scores_def)
  have ld: "length d = length xs" using d lr by simp
  have lm: "length m = length xs" using m ld by simp
  have "\<forall>j<length xs. xs ! j \<noteq> mask_token" using nm by (metis nth_mem)
  then have "\<forall>j<length xs.
            (d ! j \<longrightarrow> xs ! j \<noteq> pad_token \<and> xs ! j \<noteq> eos_token) \<and>
            (m ! j = mask_token \<longleftrightarrow> d ! j) \<and>
            (\<not> d ! j \<longrightarrow> m ! j = xs ! j)"
    using ld lr unfolding m by (auto simp: d maskable_def)
  with ld lm show ?thesis by blast
qed

lemma BLT_masking_ok:
  assumes res: "BLT_masking gen mask_token eos_token pad_token mask_rate training g inputs
                  = (Inr (masked, ind), g')"
    and nm: "\<forall>row\<in>set inputs. mask_token \<notin> set row"
  shows "masking_ok mask_token eos_token pad_token inputs masked ind"
proof -
  let ?rand = "drawn_scores gen training g inputs"
  let ?f = "BLT_row mask_token eos_token pad_token mask_rate"
  have rows: "BLT_rows mask_token eos_token pad_token mask_rate inputs ?rand = Inr (masked, ind)"
    using res unfolding BLT_masking_unfold by (auto split: sum.splits)
  then obtain rs where c: "collect (map2 ?f inputs ?rand) = Inr rs"
    and mk: "masked = map fst rs" and id: "ind = map snd rs"
    by (auto simp: BLT_rows_def split: sum.splits)
  have eq: "map2 ?f inputs ?rand = map Inr rs" using c by (rule collect_InrD)
  have lrand: "length ?rand = length inputs"
  proof (cases inputs)
    case Nil
    then show ?thesis by (simp add: drawn_scores_def torch_rand_def)
  next
    case (Cons a list)
    then have "0 < length inputs" by simp
    then show ?thesis by (rule drawn_scores_shape)
  qed
  have lrs: "length rs = length inputs"
    using arg_cong [OF eq, of length] lrand by simp
  have row: "?f (inputs ! i) (?rand ! i) = Inr (masked ! i, ind ! i)" if i: "i < length inputs" for i
  proof -
    have "map2 ?f inputs ?rand ! i = ?f (inputs ! i) (?rand ! i)" using i lrand by simp
    moreover have "map Inr rs ! i = Inr (rs ! i)" using i lrs by simp
    ultimately show ?thesis using eq i lrs by (simp add: mk id)
  qed
  have "length (masked ! i) = length (inputs ! i) \<and> length (ind ! i) = length (inputs ! i) \<and>
        (\<forall>j<length (inputs ! i).
          (ind ! i ! j \<longrightarrow> inputs ! i ! j \<noteq> pad_token \<and> inputs ! i ! j \<noteq> eos_token) \<and>
          (masked ! i ! j = mask_token \<longleftrightarrow> ind ! i ! j) \<and>
          (\<not> ind ! i ! j \<longrightarrow> masked ! i ! j = inputs ! i ! j))"
    if i: "i < length inputs" for i
  proof -
    have len: "length (?rand ! i) = length (inputs ! i)" using i by (rule drawn_scores_shape)
    have "mask_token \<notin> set (inputs ! i)" using nm i by simp
    with row [OF i] len show ?thesis by (rule BLT_row_ok)
  qed
  then show ?thesis unfolding masking_ok_iff using lrs mk id by simp
qed

lemma well_formed_one_eos:
  assumes wf: "well_formed eos_token pad_token seq" and pe: "eos_token \<noteq> pad_token"
  shows "count_list seq eos_token \<le> 1"
proof -
  let ?P = "\<lambda>x. x \<noteq> eos_token"
  have s: "seq = takeWhile ?P seq @ dropWhile ?P seq" by simp
  have b: "count_list (takeWhile ?P seq) eos_token = 0"
    by (simp add: count_list_0_iff) (metis set_takeWhileD)
  have tlp: "\<forall>x\<in>set (tl (dropWhile ?P seq)). x = pad_token"
    using wf by (simp add: well_formed_def Let_def list_all_iff)
  then have "eos_token \<notin> set (tl (dropWhile ?P seq))" using pe by auto
  then have t: "count_list (tl (dropWhile ?P seq)) eos_token = 0" by (simp add: count_list_0_iff)
  have "count_list (dropWhile ?P seq) eos_token \<le> 1"
  proof (cases "dropWhile ?P seq")
    case Nil
    show ?thesis unfolding Nil by simp
  next
    case (Cons a l)
    with t have "count_list l eos_token = 0" by simp
    then show ?thesis unfolding Cons by simp
  qed
  moreover have "count_list seq eos_token
                   = count_list (takeWhile ?P seq) eos_token + count_list (dropWhile ?P seq) eos_token"
    by (subst s) (simp only: count_list_append)
  ultimately show ?thesis using b by simp
qed

lemma well_formed_nth:
  assumes wf: "well_formed eos_token pad_token seq" and j: "j < length seq"
  shows "j < valid_length eos_token seq \<longrightarrow> seq ! j \<noteq> pad_token \<and> seq ! j \<noteq> eos_token"
    and "valid_length eos_token seq < j \<longrightarrow> seq ! j = pad_token"
proof -
  let ?P = "\<lambda>x. x \<noteq> eos_token"
  let ?n = "length (takeWhile ?P seq)"
  have s: "seq = takeWhile ?P seq @ dropWhile ?P seq" by simp
  have body: "\<forall>x\<in>set (takeWhile ?P seq). x \<noteq> pad_token"
    and tlp: "\<forall>x\<in>set (tl (dropWhile ?P seq)). x = pad_token"
    using wf by (simp_all add: well_formed_def Let_def list_all_iff)
  show "j < valid_length eos_token seq \<longrightarrow> seq ! j \<noteq> pad_token \<and> seq ! j \<noteq> eos_token"
  proof
    assume h: "j < valid_length eos_token seq"
    then have jn: "j < ?n" by (simp add: valid_length_def)
    then have e: "seq ! j = takeWhile ?P seq ! j" by (simp add: takeWhile_nth)
    have "takeWhile ?P seq ! j \<in> set (takeWhile ?P seq)" using jn by (rule nth_mem)
    then show "seq ! j \<noteq> pad_token \<and> seq ! j \<noteq> eos_token"
      using body e by (metis set_takeWhileD)
  qed
  show "valid_length eos_token seq < j \<longrightarrow> seq ! j = pad_token"
  proof
    assume h: "valid_length eos_token seq < j"
    then have nj: "?n < j" by (simp add: valid_length_def)
    have "length (takeWhile ?P seq @ dropWhile ?P seq) = length seq"
      by (simp only: takeWhile_dropWhile_id)
    then have "?n + length (dropWhile ?P seq) = length seq" by (simp only: length_append)
    then have ld: "length (dropWhile ?P seq) = length seq - ?n" by simp
    have "seq ! j = (takeWhile ?P seq @ dropWhile ?P seq) ! j" by simp
    also have "\<dots> = dropWhile ?P seq ! (j - ?n)"
      using nj nth_append [of "takeWhile ?P seq" "dropWhile ?P seq" j]
      by (simp del: takeWhile_dropWhile_id)
    also have "\<dots> = tl (dropWhile ?P seq) ! (j - ?n - 1)"
      using nj j ld by (cases "dropWhile ?P seq") (auto simp: nth_Cons')
    finally have e: "seq ! j = tl (dropWhile ?P seq) ! (j - ?n - 1)" .
    have "j - ?n - 1 < length (tl (dropWhile ?P seq))" using nj j ld by simp
    then have "tl (dropWhile ?P seq) ! (j - ?n - 1) \<in> set (tl (dropWhile ?P seq))" by (rule nth_mem)
    then show "seq ! j = pad_token" using tlp e by simp
  qed
qed

lemma test_row_ok:
  assumes wf: "well_formed eos_token pad_token seq" and pe: "eos_token \<noteq> pad_token"
    and nm: "mask_token \<notin> set seq" and len: "length seq = max_len"
  shows "\<exists>m d. test_row mask_token eos_token pad_token max_len i seq = Inr (m, d) \<and>
           length m = max_len \<and> length d = max_len \<and>
           (\<forall>j<max_len.
              (d ! j \<longrightarrow> seq ! j \<noteq> pad_token \<and> seq ! j \<noteq> eos_token) \<and>
              (m ! j = mask_token \<longleftrightarrow> d ! j) \<and>
              (\<not> d ! j \<longrightarrow> m ! j = seq ! j))"
proof -
  let ?n = "valid_length eos_token seq"
  let ?row = "take (?n + 1) seq @ drop (?n + 1) (replicate max_len pad_token)"
  let ?idx = "mask_indices i ?n"
  let ?d = "fold (\<lambda>k r. r[k := True]) ?idx (replicate max_len False)"
  let ?m = "fold (\<lambda>k r. r[k := mask_token]) ?idx ?row"
  have e: "eos_index eos_token seq = Inr ?n"
    using well_formed_one_eos [OF wf pe] by (rule eos_index_valid_length)
  have r: "test_row mask_token eos_token pad_token max_len i seq = Inr (?m, ?d)"
    by (simp add: test_row_def e Let_def)
  have lrow: "length ?row = max_len" using len by auto
  have rowj: "?row ! j = seq ! j" if j: "j < max_len" for j
  proof (cases "j < ?n + 1")
    case True
    then show ?thesis using j len by (simp add: nth_append)
  next
    case False
    then have "?n < j" by simp
    then have "seq ! j = pad_token" using well_formed_nth(2) [OF wf, of j] j len by simp
    moreover have "?row ! j = pad_token" using False j len by (simp add: nth_append)
    ultimately show ?thesis by simp
  qed
  have nmj: "seq ! j \<noteq> mask_token" if "j < max_len" for j
    using nm that len by (metis nth_mem)
  have "(?d ! j \<longrightarrow> seq ! j \<noteq> pad_token \<and> seq ! j \<noteq> eos_token) \<and>
        (?m ! j = mask_token \<longleftrightarrow> ?d ! j) \<and> (\<not> ?d ! j \<longrightarrow> ?m ! j = seq ! j)"
    if j: "j < max_len" for j
  proof -
    have dj: "?d ! j \<longleftrightarrow> j \<in> set ?idx" using j by (simp add: fold_update_nth)
    have mj: "?m ! j = (if j \<in> set ?idx then mask_token else seq ! j)"
      using j lrow rowj [OF j] by (simp add: fold_update_nth)
    have "j \<in> set ?idx \<longrightarrow> seq ! j \<noteq> pad_token \<and> seq ! j \<noteq> eos_token"
      using well_formed_nth(1) [OF wf, of j] j len by (simp add: mask_indices_mem)
    then show ?thesis using dj mj nmj [OF j] by simp
  qed
  then show ?thesis using r lrow by (simp add: fold_update_length)
qed

lemma foldr_max_const:
  "\<forall>r\<in>set xs. length r = n \<Longrightarrow> xs \<noteq> [] \<Longrightarrow> foldr max (map length xs) 0 = n"
proof (induction xs)
  case Nil
  then show ?case by simp
next
  case (Cons a xs)
  show ?case
  proof (cases "xs = []")
    case True
    with Cons.prems show ?thesis by simp
  next
    case False
    with Cons have "foldr max (map length xs) 0 = n" by simp
    with Cons.prems show ?thesis by simp
  qed
qed

lemma tensor_max_len:
  assumes "is_tensor inputs" and "i < length inputs"
  shows "length (inputs ! i) = foldr max (map length inputs) 0"
proof -
  have all: "\<forall>r\<in>set inputs. length r = length (hd inputs)"
    using assms(1) by (simp add: is_tensor_def list_all_iff)
  have ne: "inputs \<noteq> []" using assms(2) by auto
  have m: "foldr max (map length inputs) 0 = length (hd inputs)"
    using all ne by (rule foldr_max_const)
  have "inputs ! i \<in> set inputs" using assms(2) by (rule nth_mem)
  with all have "length (inputs ! i) = length (hd inputs)" by blast
  with m show ?thesis by (simp only:)
qed

lemma test_masking_ok:
  assumes ne: "inputs \<noteq> []" and t: "is_tensor inputs"
    and wf: "\<forall>row\<in>set inputs. well_formed eos_token pad_token row"
    and pe: "eos_token \<noteq> pad_token"
    and nm: "\<forall>row\<in>set inputs. mask_token \<notin> set row"
  shows "\<exists>masked ind. test_masking mask_token eos_token pad_token inputs = Inr (masked, ind) \<and>
           masking_ok mask_token eos_token pad_token inputs masked ind"
proof -
  let ?m = "foldr max (map length inputs) 0"
  let ?r = "\<lambda>i. test_row mask_token eos_token pad_token ?m i (inputs ! i)"
  have row: "\<exists>m d. ?r i = Inr (m, d) \<and> length m = ?m \<and> length d = ?m \<and>
           (\<forall>j<?m.
              (d ! j \<longrightarrow> inputs ! i ! j \<noteq> pad_token \<and> inputs ! i ! j \<noteq> eos_token) \<and>
              (m ! j = mask_token \<longleftrightarrow> d ! j) \<and>
              (\<not> d ! j \<longrightarrow> m ! j = inputs ! i ! j))"
    if i: "i < length inputs" for i
  proof -
    have "well_formed eos_token pad_token (inputs ! i)" using wf i by simp
    moreover have "mask_token \<notin> set (inputs ! i)" using nm i by simp
    moreover have "length (inputs ! i) = ?m" using t i by (rule tensor_max_len)
    ultimately show ?thesis using pe by (intro test_row_ok) simp_all
  qed
  then have "\<forall>i<length inputs. \<exists>y. ?r i = Inr y" by blast
  with ne have tm: "test_masking mask_token eos_token pad_token inputs =
           Inr (map (\<lambda>i. fst (projr (?r i))) [0..<length inputs],
                map (\<lambda>i. snd (projr (?r i))) [0..<length inputs])"
    by (rule test_masking_rows)
  have key: "length (fst (projr (?r i))) = length (inputs ! i) \<and>
             length (snd (projr (?r i))) = length (inputs ! i) \<and>
             (\<forall>j<length (inputs ! i).
                (snd (projr (?r i)) ! j \<longrightarrow> inputs ! i ! j \<noteq> pad_token \<and> inputs ! i ! j \<noteq> eos_token) \<and>
                (fst (projr (?r i)) ! j = mask_token \<longleftrightarrow> snd (projr (?r i)) ! j) \<and>
                (\<not> snd (projr (?r i)) ! j \<longrightarrow> fst (projr (?r i)) ! j = inputs ! i ! j))"
    if i: "i < length inputs" for i
  proof -
    have l: "length (inputs ! i) = ?m" using t i by (rule tensor_max_len)
    from row [OF i] obtain m d where md: "?r i = Inr (m, d)" and lm: "length m = ?m" "length d = ?m"
      and p: "\<forall>j<?m.
              (d ! j \<longrightarrow> inputs ! i ! j \<noteq> pad_token \<and> inputs ! i ! j \<noteq> eos_token) \<and>
              (m ! j = mask_token \<longleftrightarrow> d ! j) \<and>
              (\<not> d ! j \<longrightarrow> m ! j = inputs ! i ! j)" by blast
    have f: "fst (projr (?r i)) = m" and g: "snd (projr (?r i)) = d" by (simp_all only: md sum.sel fst_conv snd_conv)
    show ?thesis unfolding f g l using lm p by blast
  qed
  have "masking_ok mask_token eos_token pad_token inputs
          (map (\<lambda>i. fst (projr (?r i))) [0..<length inputs])
          (map (\<lambda>i. snd (projr (?r i))) [0..<length inputs])"
    unfolding masking_ok_iff using key by simp
  with tm show ?thesis by blast
qed

section \<open>C1: pad and eos positions are never masked\<close>

text \<open>
  C1 (as amended). Let no position of the batch hold \<open>mask_token\<close> and let \<open>eos_token\<close> and
  \<open>pad_token\<close> differ. Whenever \<open>BLT_masking\<close> returns, training mode or not and whatever
  the rate, its indicator is true only at positions holding neither \<open>pad_token\<close> nor
  \<open>eos_token\<close>, and its masked batch holds \<open>mask_token\<close> exactly at the indicator positions
  and the input everywhere else. \<open>test_masking\<close> returns with the same guarantee on every
  non-empty batch whose sequences have the shape of the data model: ordinary tokens, then
  either nothing or one \<open>eos_token\<close> followed by \<open>pad_token\<close> only.
\<close>

theorem masking_spares_pad_and_eos:
  assumes nm: "\<forall>row\<in>set inputs. mask_token \<notin> set row" and pe: "eos_token \<noteq> pad_token"
  shows "(\<forall>masked ind g'.
            BLT_masking gen mask_token eos_token pad_token mask_rate training g inputs
              = (Inr (masked, ind), g') \<longrightarrow>
            masking_ok mask_token eos_token pad_token inputs masked ind)
       \<and> (inputs \<noteq> [] \<and> is_tensor inputs \<and> (\<forall>row\<in>set inputs. well_formed eos_token pad_token row) \<longrightarrow>
            (\<exists>masked ind. test_masking mask_token eos_token pad_token inputs = Inr (masked, ind) \<and>
               masking_ok mask_token eos_token pad_token inputs masked ind))"
  using BLT_masking_ok [OF _ nm] test_masking_ok [OF _ _ _ pe nm] by blast

theorem masking_spares_pad_and_eos_witness:
  "(102 :: token) \<notin> set [5, 1, 2, 100, 101] \<and> (102 :: token) \<notin> set [7, 8, 9, 4, 100]
   \<and> (100 :: token) \<noteq> 101
   \<and> [[5, 1, 2, 100, 101], [7, 8, 9, 4, 100 :: token]] \<noteq> []
   \<and> is_tensor [[5, 1, 2, 100, 101], [7, 8, 9, 4, 100 :: token]]
   \<and> well_formed 100 101 [5, 1, 2, 100, 101] \<and> well_formed 100 101 [7, 8, 9, 4, 100]
   \<and> BLT_masking example_stream 102 100 101 (1 / 2) True \<lparr>seed = 7, drawn = 0\<rparr>
        [[5, 1, 2, 100, 101], [7, 8, 9, 4, 100]]
      = (Inr ([[5, 102, 102, 100, 101], [7, 8, 102, 102, 100]],
              [[False, True, True, False, False], [False, False, True, True, False]]),
         \<lparr>seed = 7, drawn = 10\<rparr>)
   \<and> test_masking 102 100 101 [[5, 1, 2, 100, 101], [7, 8, 9, 4, 100]]
      = Inr ([[5, 102, 102, 100, 101], [7, 102, 102, 4, 100]],
             [[False, True, True, False, False], [False, True, True, False, False]])"
proof -
  have a: "BLT_masking example_stream 102 100 101 (1 / 2) True \<lparr>seed = 7, drawn = 0\<rparr>
        [[5, 1, 2, 100, 101], [7, 8, 9, 4, 100]]
      = (Inr ([[5, 102, 102, 100, 101], [7, 8, 102, 102, 100]],
              [[False, True, True, False, False], [False, False, True, True, False]]),
         \<lparr>seed = 7, drawn = 10\<rparr>)"
    by code_simp
  have b: "test_masking 102 100 101 [[5, 1, 2, 100, 101], [7, 8, 9, 4, 100]]
      = Inr ([[5, 102, 102, 100, 101], [7, 102, 102, 4, 100]],
             [[False, True, True, False, False], [False, True, True, False, False]])"
    by code_simp
  have c: "is_tensor [[5, 1, 2, 100, 101], [7, 8, 9, 4, 100 :: token]]"
    "well_formed 100 101 [5, 1, 2, 100, 101]" "well_formed 100 101 [7, 8, 9, 4, 100]"
    by code_simp+
  show ?thesis
    using masking_spares_pad_and_eos [of "[[5, 1, 2, 100, 101], [7, 8, 9, 4, 100]]" 102 100 101
        example_stream "1 / 2" True "\<lparr>seed = 7, drawn = 0\<rparr>"] a b c
    by simp
qed


text \<open>
  Without that shape the claim fails for \<open>test_masking\<close>: in a sequence without
  \<open>eos_token\<close> the valid length is the full length, and a \<open>pad_token\<close> at index 1 is
  replaced by \<open>mask_token\<close>.
\<close>

theorem test_masking_pad_counterexample:
  "test_masking 102 100 101 [[5, 101]] = Inr ([[5, 102]], [[False, True]])
   \<and> 102 \<notin> set [5, 101 :: token]
   \<and> [[5, 101 :: token]] ! 0 ! 1 = 101
   \<and> \<not> masking_ok 102 100 101 [[5, 101]] [[5, 102]] [[False, True]]"
  by code_simp

section \<open>Facts about the training pass and the epoch loop\<close>













lemma train_pass_test_loss:
  "train_pass gen tk cfg st bs = Inr st' \<Longrightarrow> test_loss st' = test_loss st"
proof (induction bs arbitrary: st)
  case Nil
  then show ?case by simp
next
  case (Cons b bs)
  have o: "test_loss (optimizer_step cfg s) = test_loss s" for s
    by (simp add: optimizer_step_def Let_def)
  from Cons.prems show ?case
    by (auto simp: Let_def o split: prod.splits sum.splits if_splits dest!: Cons.IH)
qed

lemma train_no_test_set_raises:
  assumes "\<not> has_test ev"
  shows "isl (train gen ev cfg stdin st)"
proof -
  let ?st = "st\<lparr>best_loss := PyFloat PInf, test_loss := None\<rparr>"
  have "isl (epoch_body gen ev cfg (0 + 1) ?st)"
  proof (cases "train_pass gen (toks ev) cfg ?st (train_data ev (0 + 1))")
    case (Inl e)
    then show ?thesis by (simp add: epoch_body_def bindE_def run_epoch_def)
  next
    case (Inr st1)
    then have "test_loss st1 = None" by (auto dest: train_pass_test_loss)
    then show ?thesis using Inr assms
      by (auto simp: epoch_body_def bindE_def run_epoch_def save_checkpoint_def good_model_def
               split: option.splits)
  qed
  then obtain e where "epoch_body gen ev cfg (0 + 1) ?st = Inl e"
    by (cases "epoch_body gen ev cfg (0 + 1) ?st") simp_all
  then show ?thesis unfolding train_def by (subst train_loop.simps) simp
qed

subsection \<open>The example run\<close>

lemma example_train_masking:
  "BLT_masking example_stream (mask_tok example_tokens) (eos_tok example_tokens)
     (pad_tok example_tokens) (train_mask_rate example_config (u_draw (example_batch l gs))) True
     (gen_at (example_batch l gs)) (y_batch (example_batch l gs))
   = (Inr ([[5, 102, 102, 100, 101]], [[False, True, True, False, False]]), \<lparr>seed = 7, drawn = 5\<rparr>)"
  by code_simp

lemma example_eval_masking:
  "BLT_masking example_stream (mask_tok example_tokens) (eos_tok example_tokens)
     (pad_tok example_tokens) (eval_mask_rate cfg 0 (Suc 0)) False
     (gen_at (example_batch l gs)) (y_batch (example_batch l gs))
   = (Inr ([[5, 1, 102, 100, 101]], [[False, False, True, False, False]]), \<lparr>seed = 7, drawn = 0\<rparr>)"
  by code_simp

lemma train_mask_rate_max_epochs:
  "train_mask_rate (cfg\<lparr>max_epochs := m\<rparr>) v = train_mask_rate cfg v"
  by (simp add: train_mask_rate_def)

lemma example_batch_sel:
  "grads (example_batch l gs) = gs" "loss (example_batch l gs) = l"
  by (simp_all add: example_batch_def)

lemma example_env_sel:
  "has_test (example_env t) = t"
  "train_data (example_env t) epoch = [example_batch (Fin 1) [(''w'', Some [Fin 1])]]"
  "test_data (example_env t) epoch = [example_batch (Fin (1 / of_int (epoch + 1))) []]"
  "toks (example_env t) = example_tokens"
  by (simp_all add: example_env_def)

lemma example_config_sel:
  "max_epochs example_config = 1" "lr_decay example_config = False"
  "ckpt_dir example_config = Some ''save''" "samples_dir example_config = None"
  by (simp_all add: example_config_def default_config_def)

lemma py_int_examples:
  "py_int ''3'' = Some 3" "py_int ''abc'' = None" "py_int ''0'' = Some 0" "py_int ''-2'' = Some (- 2)"
  "py_int ''3.5'' = None" "py_int '''' = None"
  by code_simp+

lemmas example_run =
  train_def train_loop.simps epoch_body_def bindE_def run_epoch_def
  example_train_masking example_eval_masking train_mask_rate_max_epochs
  example_batch_sel example_env_sel example_config_sel py_int_examples
  optimizer_step_def save_checkpoint_def good_model_def py_lt_def np_mean_def isnan_def
  start_state_def Let_def

section \<open>C3: a NaN gradient aborts the training pass\<close>




section \<open>C6: the prompt at the last epoch\<close>




section \<open>C7: the checkpoints at the end of an epoch\<close>

text \<open>
  C7. The claim: at the end of every epoch the checkpoint of the epoch is saved, and the
  best checkpoint is overwritten and \<open>best_loss\<close> updated exactly when \<open>good_model\<close> holds,
  also when no test set is configured. The source says the same in its comment ("or
  just save always if no test set is provided") and its \<open>good_model\<close> starts with
  \<open>self.test_dataset is None\<close>, but the next line prints \<open>test_loss\<close>, a local that is
  assigned only when a test set is configured. The run below has no test set and a
  checkpoint directory: the first epoch trains, saves its checkpoint, and raises
  \<open>UnboundLocalError\<close> at the \<open>print\<close>; the best checkpoint is never written. The same
  run with a test set saves the checkpoint of the epoch and the best checkpoint and
  sets \<open>best_loss\<close> to the test loss.
\<close>

theorem train_without_test_set:
  "train example_stream (example_env False) example_config [''abc''] start_state
     = Inl UnboundLocalError
   \<and> map_sum id (\<lambda>f. (end_epoch f, saved (end_state f), best_loss (end_state f)))
       (train example_stream (example_env True) example_config [''abc''] start_state)
     = Inr (1, [Some 1, None], PyFloat (Fin (1 / 2)))"
  by (simp add: example_run)

end
